theory Spec2Isabelle
  imports Main
begin

section \<open>The physics system of src/systems/physics-system.js\<close>

text \<open>
  The class \<open>PhysicsSystem\<close> keeps a registry of bodies (handles issued by \<open>addBody\<close>,
  slots assigned by the simulation worker in \<open>BODY_READY\<close>), exchanges one transfer
  buffer with the worker every tick, and toggles debug rendering. Its fields become a
  record, every method a function from the state to the new state, every exception a
  value of \<open>error\<close> returned together with the state reached when it was thrown (a
  JavaScript exception does not undo the assignments made before it).
\<close>

subsection \<open>Constants of three-ammo\<close>

text \<open>
  \<open>BUFFER_CONFIG.BODY_DATA_SIZE\<close> is imported from three-ammo; the value is the one of
  the buffer schema comment of \<open>tick\<close>: 26 elements per body, 0-15 the matrix, 16 and 17
  the velocities, 18-25 the collisions.
\<close>

definition BODY_DATA_SIZE :: nat where
  "BODY_DATA_SIZE = 26"

text \<open>\<open>CONSTANTS.TYPE\<close>: the three kinds of body, non-empty strings in three-ammo.\<close>

datatype body_type = STATIC | DYNAMIC | KINEMATIC

subsection \<open>Values\<close>

datatype error = TypeError | RangeError

text \<open>
  One 4-byte element of the transfer buffer. The buffer has two views on the same bytes,
  \<open>objectMatricesFloatArray\<close> and \<open>objectMatricesIntArray\<close>; an element holds what was
  last stored in it, through the one view or the other.
\<close>

datatype 'f cell = Float32 'f | Int32 int

text \<open>
  A scene object (THREE.Object3D), as far as \<open>tick\<close> touches it: its local position,
  quaternion and scale, the world matrix of its parent (\<open>None\<close> when \<open>object3D.parent\<close>
  is null) and its own world matrix, both as their 16 \<open>elements\<close>. The scene graph
  belongs to three.js: every handle has its own object here, with the parent's world
  matrix as the object sees it.
\<close>

record ('f, 'v, 'q) object3D =
  position :: 'v
  quaternion :: 'q
  scale :: 'v
  parent :: "'f list option"
  matrixWorld :: "'f list"

text \<open>
  What the code calls of three.js and of the typed arrays, all of it outside this
  repository, is a parameter of the model. \<open>'f\<close> is a JavaScript value that a matrix
  element or an element of the float view can be: a number or \<open>undefined\<close>.
\<close>

record ('f, 'v, 'q) three =
  js_undefined :: 'f
  js_zero :: 'f
  fround :: "'f \<Rightarrow> 'f"
  float_of_bits :: "int \<Rightarrow> 'f"
  bits_of_float :: "'f \<Rightarrow> int"
  getInverse :: "'f list \<Rightarrow> 'f list"
  multiplyMatrices :: "'f list \<Rightarrow> 'f list \<Rightarrow> 'f list"
  decompose :: "'f list \<Rightarrow> 'v \<times> 'q \<times> 'v"
  updateMatrices :: "('f, 'v, 'q) object3D \<Rightarrow> ('f, 'v, 'q) object3D"

text \<open>The options of a body; \<open>tick\<close> reads only \<open>type\<close>, which may be absent.\<close>

record body_options =
  type :: "body_type option"

text \<open>
  A key of the object \<open>this.shapes\<close>: the number of a body (\<open>this.shapes[bodyUuid]\<close>) or
  a property name written in the code (\<open>this.shapes.bodyUuid\<close>).
\<close>

datatype pkey = KNum nat | KStr string

text \<open>
  What the system sends to the worker, through \<open>ammoWorker.postMessage\<close> or through
  \<open>workerHelpers\<close>, in the order sent; of a payload only the handles are kept, and the
  buffer of \<open>TRANSFER_DATA\<close>.
\<close>

datatype 'f worker_msg =
    MSG_TRANSFER_DATA "'f cell list"
  | MSG_ADD_BODY nat
  | MSG_UPDATE_BODY nat
  | MSG_REMOVE_BODY nat
  | MSG_ADD_SHAPES nat nat
  | MSG_REMOVE_SHAPES nat nat
  | MSG_ADD_CONSTRAINT nat nat nat
  | MSG_REMOVE_CONSTRAINT nat
  | MSG_RESET_DYNAMIC_BODY nat
  | MSG_ACTIVATE_BODY nat
  | MSG_SET_DEBUG bool

text \<open>What the worker sends to \<open>ammoWorker.onmessage\<close>.\<close>

datatype 'f event =
    READY
  | BODY_READY nat int
  | SHAPES_READY nat nat
  | TRANSFER_DATA "'f cell list" 'f
  | OTHER

subsection \<open>The state\<close>

text \<open>
  The fields of \<open>PhysicsSystem\<close>. A JavaScript object used as a dictionary is a map.
  For \<open>bodyOptions\<close> a key that is absent and a key whose value is \<open>undefined\<close> read
  the same everywhere in this code, so both are \<open>None\<close>; a velocity that was read as
  \<open>undefined\<close> is a present key (\<open>hasOwnProperty\<close> sees it) whose value is the
  \<open>undefined\<close> of \<open>'f\<close>. An element of a collision list can be \<open>undefined\<close>
  (\<open>None\<close>). \<open>objectMatrices\<close> is the transfer buffer under both views; it is empty, of
  byte length 0, while the worker owns it. \<open>debugMesh\<close> is \<open>None\<close> before the mesh is
  created, then \<open>Some p\<close> where \<open>p\<close> says whether the mesh has a parent (is in the
  scene). \<open>debugIndex\<close> is the cursor shared with the worker, \<open>debugNeedsUpdate\<close> and
  \<open>debugDrawRange\<close> the geometry's flags and draw range. \<open>outbox\<close> and \<open>warnings\<close> record
  the messages posted and the \<open>console.warn\<close> calls. The lists \<open>bodyHelpers\<close> and
  \<open>shapeHelpers\<close> hold foreign objects whose \<open>init2\<close> callbacks are not part of this file
  and are left out.
\<close>

record ('f, 'v, 'q) physics =
  bodyUuids :: "nat list"
  uuidToIndex :: "nat \<rightharpoonup> int"
  indexToUuid :: "int \<rightharpoonup> nat"
  object3Ds :: "nat \<rightharpoonup> ('f, 'v, 'q) object3D"
  bodyOptions :: "nat \<rightharpoonup> body_options"
  bodyLinearVelocities :: "nat \<rightharpoonup> 'f"
  bodyAngularVelocities :: "nat \<rightharpoonup> 'f"
  shapes :: "pkey \<rightharpoonup> nat list"
  collisions :: "nat \<rightharpoonup> nat option list"
  debugRequested :: bool
  debugEnabled :: bool
  debugMesh :: "bool option"
  debugIndex :: nat
  debugNeedsUpdate :: bool
  debugDrawRange :: nat
  stepDuration :: 'f
  ready :: bool
  nextBodyUuid :: nat
  nextShapeUuid :: nat
  objectMatrices :: "'f cell list"
  outbox :: "'f worker_msg list"
  warnings :: "string list"

text \<open>
  The constructor: empty registries, and the buffer already handed to the worker with
  \<open>INIT\<close> (the array buffer is in the transfer list of that message, so the views left
  behind have length 0).
\<close>

definition init :: "('f, 'v, 'q) three \<Rightarrow> ('f, 'v, 'q) physics" where
  "init lib =
     \<lparr> bodyUuids = [], uuidToIndex = Map.empty, indexToUuid = Map.empty,
       object3Ds = Map.empty, bodyOptions = Map.empty,
       bodyLinearVelocities = Map.empty, bodyAngularVelocities = Map.empty,
       shapes = Map.empty, collisions = Map.empty,
       debugRequested = False, debugEnabled = False, debugMesh = None,
       debugIndex = 0, debugNeedsUpdate = False, debugDrawRange = 0,
       stepDuration = js_zero lib, ready = False,
       nextBodyUuid = 0, nextShapeUuid = 0,
       objectMatrices = [], outbox = [], warnings = [] \<rparr>"

subsection \<open>Array helpers of JavaScript\<close>

text \<open>\<open>Array.prototype.indexOf\<close>: the first position of the value, \<open>-1\<close> when absent.\<close>

fun indexOf :: "'a list \<Rightarrow> 'a \<Rightarrow> int" where
  "indexOf [] v = -1"
| "indexOf (x # xs) v =
     (if x = v then 0 else (let r = indexOf xs v in if r = -1 then -1 else r + 1))"

text \<open>\<open>xs.splice(idx, 1)\<close> for an \<open>idx\<close> that \<open>indexOf\<close> returned and that is not \<open>-1\<close>.\<close>

definition splice1 :: "int \<Rightarrow> 'a list \<Rightarrow> 'a list" where
  "splice1 idx xs = take (nat idx) xs @ drop (nat idx + 1) xs"

subsection \<open>Messages of the worker\<close>

text \<open>
  \<open>ammoWorker.onmessage\<close>. \<open>SHAPES_READY\<close> pushes on \<open>this.shapes[bodyUuid]\<close> and throws
  when that list does not exist.
\<close>

fun onmessage ::
  "('f, 'v, 'q) physics \<Rightarrow> 'f event \<Rightarrow> error option \<times> ('f, 'v, 'q) physics" where
  "onmessage s READY = (None, s\<lparr>ready := True\<rparr>)"
| "onmessage s (BODY_READY uuid index) =
     (None, s\<lparr>bodyUuids := bodyUuids s @ [uuid],
              uuidToIndex := (uuidToIndex s)(uuid \<mapsto> index),
              indexToUuid := (indexToUuid s)(index \<mapsto> uuid)\<rparr>)"
| "onmessage s (SHAPES_READY bodyUuid shapesUuid) =
     (case shapes s (KNum bodyUuid) of
        None \<Rightarrow> (Some TypeError, s)
      | Some l \<Rightarrow> (None, s\<lparr>shapes := (shapes s)(KNum bodyUuid \<mapsto> l @ [shapesUuid])\<rparr>))"
| "onmessage s (TRANSFER_DATA arr d) =
     (None, s\<lparr>objectMatrices := arr, stepDuration := d\<rparr>)"
| "onmessage s OTHER = (None, s)"

subsection \<open>Bodies and shapes\<close>

definition addBody ::
  "('f, 'v, 'q) three \<Rightarrow> ('f, 'v, 'q) physics \<Rightarrow> ('f, 'v, 'q) object3D \<Rightarrow>
   body_options option \<Rightarrow> nat \<times> ('f, 'v, 'q) physics" where
  "addBody lib s object3D options =
     (let u = nextBodyUuid s in
      (u, s\<lparr>outbox := outbox s @ [MSG_ADD_BODY u],
            object3Ds := (object3Ds s)(u \<mapsto> object3D),
            bodyOptions := (bodyOptions s)(u := options),
            collisions := (collisions s)(u \<mapsto> []),
            bodyLinearVelocities := (bodyLinearVelocities s)(u \<mapsto> js_zero lib),
            bodyAngularVelocities := (bodyAngularVelocities s)(u \<mapsto> js_zero lib),
            nextBodyUuid := u + 1\<rparr>))"

definition updateBody ::
  "('f, 'v, 'q) physics \<Rightarrow> nat \<Rightarrow> body_options option \<Rightarrow> ('f, 'v, 'q) physics" where
  "updateBody s uuid options =
     s\<lparr>bodyOptions := (bodyOptions s)(uuid := options),
       outbox := outbox s @ [MSG_UPDATE_BODY uuid]\<rparr>"

text \<open>
  \<open>removeBody\<close>. When \<open>uuidToIndex[uuid]\<close> is \<open>undefined\<close> the first \<open>delete\<close> names the
  key \<open>"undefined"\<close>, which \<open>indexToUuid\<close> never has (its keys are the numbers of
  \<open>BODY_READY\<close>), and removes nothing.
\<close>

definition removeBody :: "('f, 'v, 'q) physics \<Rightarrow> nat \<Rightarrow> ('f, 'v, 'q) physics" where
  "removeBody s uuid =
     (let idx = indexOf (bodyUuids s) uuid in
      s\<lparr>indexToUuid :=
          (case uuidToIndex s uuid of
             None \<Rightarrow> indexToUuid s
           | Some i \<Rightarrow> (indexToUuid s)(i := None)),
        uuidToIndex := (uuidToIndex s)(uuid := None),
        object3Ds := (object3Ds s)(uuid := None),
        bodyOptions := (bodyOptions s)(uuid := None),
        collisions := (collisions s)(uuid := None),
        bodyLinearVelocities := (bodyLinearVelocities s)(uuid := None),
        bodyAngularVelocities := (bodyAngularVelocities s)(uuid := None),
        bodyUuids := (if idx \<noteq> -1 then splice1 idx (bodyUuids s) else bodyUuids s),
        outbox := outbox s @ [MSG_REMOVE_BODY uuid]\<rparr>)"

text \<open>\<open>addShapes\<close>; the scale read from the mesh is computed and dropped.\<close>

definition addShapes ::
  "('f, 'v, 'q) physics \<Rightarrow> nat \<Rightarrow> nat \<times> ('f, 'v, 'q) physics" where
  "addShapes s bodyUuid =
     (let n = nextShapeUuid s;
          l = (case shapes s (KNum bodyUuid) of None \<Rightarrow> [] | Some l \<Rightarrow> l) in
      (n, s\<lparr>outbox := outbox s @ [MSG_ADD_SHAPES bodyUuid n],
            shapes := (shapes s)(KNum bodyUuid \<mapsto> l @ [n]),
            nextShapeUuid := n + 1\<rparr>))"

text \<open>
  \<open>removeShapes\<close>. The guard reads \<open>this.shapes.bodyUuid\<close>, the property named
  \<open>"bodyUuid"\<close>, not \<open>this.shapes[bodyUuid]\<close>; an array is truthy, also when empty.
\<close>

definition removeShapes ::
  "('f, 'v, 'q) physics \<Rightarrow> nat \<Rightarrow> nat \<Rightarrow> error option \<times> ('f, 'v, 'q) physics" where
  "removeShapes s bodyUuid shapesUuid =
     (let s1 = s\<lparr>outbox := outbox s @ [MSG_REMOVE_SHAPES bodyUuid shapesUuid]\<rparr> in
      case shapes s1 (KStr ''bodyUuid'') of
        None \<Rightarrow> (None, s1)
      | Some _ \<Rightarrow>
          (case shapes s1 (KNum bodyUuid) of
             None \<Rightarrow> (Some TypeError, s1)
           | Some l \<Rightarrow>
               (let idx = indexOf l shapesUuid in
                if idx \<noteq> -1
                then (None, s1\<lparr>shapes := (shapes s1)(KNum bodyUuid \<mapsto> splice1 idx l)\<rparr>)
                else (None, s1))))"

text \<open>\<open>bodyInitialized\<close>: \<open>!!this.uuidToIndex[uuid]\<close>; \<open>undefined\<close> and \<open>0\<close> are falsy.\<close>

definition bodyInitialized :: "('f, 'v, 'q) physics \<Rightarrow> nat \<Rightarrow> bool" where
  "bodyInitialized s uuid =
     (case uuidToIndex s uuid of None \<Rightarrow> False | Some i \<Rightarrow> i \<noteq> 0)"

text \<open>The remaining methods only forward to the worker.\<close>

definition addConstraint ::
  "('f, 'v, 'q) physics \<Rightarrow> nat \<Rightarrow> nat \<Rightarrow> nat \<Rightarrow> ('f, 'v, 'q) physics" where
  "addConstraint s constraintId bodyUuid targetUuid =
     s\<lparr>outbox := outbox s @ [MSG_ADD_CONSTRAINT constraintId bodyUuid targetUuid]\<rparr>"

definition removeConstraint :: "('f, 'v, 'q) physics \<Rightarrow> nat \<Rightarrow> ('f, 'v, 'q) physics" where
  "removeConstraint s constraintId = s\<lparr>outbox := outbox s @ [MSG_REMOVE_CONSTRAINT constraintId]\<rparr>"

definition resetDynamicBody :: "('f, 'v, 'q) physics \<Rightarrow> nat \<Rightarrow> ('f, 'v, 'q) physics" where
  "resetDynamicBody s uuid = s\<lparr>outbox := outbox s @ [MSG_RESET_DYNAMIC_BODY uuid]\<rparr>"

definition activateBody :: "('f, 'v, 'q) physics \<Rightarrow> nat \<Rightarrow> ('f, 'v, 'q) physics" where
  "activateBody s uuid = s\<lparr>outbox := outbox s @ [MSG_ACTIVATE_BODY uuid]\<rparr>"

definition getLinearVelocity :: "('f, 'v, 'q) physics \<Rightarrow> nat \<Rightarrow> 'f option" where
  "getLinearVelocity s uuid = bodyLinearVelocities s uuid"

definition getAngularVelocity :: "('f, 'v, 'q) physics \<Rightarrow> nat \<Rightarrow> 'f option" where
  "getAngularVelocity s uuid = bodyAngularVelocities s uuid"

subsection \<open>The transfer buffer\<close>

text \<open>\<open>buffer.byteLength\<close>: four bytes an element, 0 once the buffer is transferred.\<close>

definition byteLength :: "'f cell list \<Rightarrow> nat" where
  "byteLength buf = 4 * length buf"

text \<open>
  \<open>index * BUFFER_CONFIG.BODY_DATA_SIZE + j\<close>, where \<open>index\<close> is \<open>uuidToIndex[uuid]\<close>; with
  \<open>index\<close> undefined the product is NaN (\<open>None\<close>).
\<close>

definition offset :: "int option \<Rightarrow> nat \<Rightarrow> int option" where
  "offset index j = map_option (\<lambda>i. i * int BODY_DATA_SIZE + int j) index"

text \<open>
  Reading an element of a typed array: \<open>undefined\<close> when the index is NaN, negative or
  past the end. The float view of an element stored as an integer, and the integer view
  of one stored as a float, reinterpret its bits.
\<close>

definition floatAt :: "('f, 'v, 'q) three \<Rightarrow> 'f cell list \<Rightarrow> int option \<Rightarrow> 'f" where
  "floatAt lib buf k =
     (case k of
        None \<Rightarrow> js_undefined lib
      | Some n \<Rightarrow>
          if 0 \<le> n \<and> n < int (length buf)
          then (case buf ! nat n of Float32 x \<Rightarrow> x | Int32 b \<Rightarrow> float_of_bits lib b)
          else js_undefined lib)"

definition intAt :: "('f, 'v, 'q) three \<Rightarrow> 'f cell list \<Rightarrow> int option \<Rightarrow> int option" where
  "intAt lib buf k =
     (case k of
        None \<Rightarrow> None
      | Some n \<Rightarrow>
          if 0 \<le> n \<and> n < int (length buf)
          then Some (case buf ! nat n of Int32 b \<Rightarrow> b | Float32 x \<Rightarrow> bits_of_float lib x)
          else None)"

text \<open>\<open>matrix.fromArray(array, offset)\<close>: the 16 elements from \<open>offset\<close> on.\<close>

definition fromArray ::
  "('f, 'v, 'q) three \<Rightarrow> 'f cell list \<Rightarrow> int option \<Rightarrow> 'f list" where
  "fromArray lib buf index = map (\<lambda>i. floatAt lib buf (offset index i)) [0..<16]"

text \<open>
  \<open>floatArray.set(elements, offset)\<close>: a NaN offset counts as 0; a negative offset, or a
  source that does not fit, is a RangeError and nothing is written.
\<close>

definition setFloats ::
  "('f, 'v, 'q) three \<Rightarrow> 'f cell list \<Rightarrow> 'f list \<Rightarrow> int option \<Rightarrow> error + 'f cell list" where
  "setFloats lib buf src k =
     (let off = (case k of None \<Rightarrow> 0 | Some n \<Rightarrow> n) in
      if off < 0 \<or> int (length src) + off > int (length buf) then Inl RangeError
      else Inr (take (nat off) buf @ map (\<lambda>x. Float32 (fround lib x)) src
                @ drop (nat off + length src) buf))"

subsection \<open>Debug rendering\<close>

definition setDebug :: "('f, 'v, 'q) physics \<Rightarrow> bool \<Rightarrow> ('f, 'v, 'q) physics" where
  "setDebug s debug = s\<lparr>debugRequested := debug\<rparr>"

text \<open>
  \<open>enableDebug\<close>; the first argument says whether \<open>window.SharedArrayBuffer\<close> exists. A
  fresh shared buffer is zeroed, so the cursor of a new mesh reads 0.
\<close>

definition enableDebug :: "bool \<Rightarrow> ('f, 'v, 'q) physics \<Rightarrow> ('f, 'v, 'q) physics" where
  "enableDebug sab s =
     (if \<not> sab
      then s\<lparr>warnings := warnings s @
               [''Physics debug rendering only available in browsers that support SharedArrayBuffers.''],
             debugRequested := False\<rparr>
      else
        (let s1 = s\<lparr>debugEnabled := True\<rparr>;
             s2 = (case debugMesh s1 of
                     None \<Rightarrow> s1\<lparr>debugMesh := Some False, debugIndex := 0\<rparr>
                   | Some _ \<Rightarrow> s1) in
         if debugMesh s2 = Some False
         then s2\<lparr>debugMesh := Some True, outbox := outbox s2 @ [MSG_SET_DEBUG True]\<rparr>
         else s2))"

definition disableDebug :: "('f, 'v, 'q) physics \<Rightarrow> ('f, 'v, 'q) physics" where
  "disableDebug s =
     (let s1 = s\<lparr>debugEnabled := False\<rparr> in
      case debugMesh s1 of
        None \<Rightarrow> s1
      | Some _ \<Rightarrow> s1\<lparr>debugMesh := Some False, outbox := outbox s1 @ [MSG_SET_DEBUG False]\<rparr>)"

text \<open>
  The last part of \<open>tick\<close>: the cursor is loaded, the draw range set, the cursor reset.
  Without the mesh there is no \<open>debugIndex\<close> to load from.
\<close>

definition debugRender :: "('f, 'v, 'q) physics \<Rightarrow> error option \<times> ('f, 'v, 'q) physics" where
  "debugRender s =
     (if debugEnabled s
      then (case debugMesh s of
              None \<Rightarrow> (Some TypeError, s)
            | Some _ \<Rightarrow>
                (let index = debugIndex s;
                     s1 = (if index \<noteq> 0 then s\<lparr>debugNeedsUpdate := True\<rparr> else s) in
                 (None, s1\<lparr>debugDrawRange := index, debugIndex := 0\<rparr>)))
      else (None, s))"

subsection \<open>The tick\<close>

text \<open>
  The inner loop over \<open>j\<close>, from 18 to \<open>BODY_DATA_SIZE - 1\<close>, on the integer view of the
  buffer and on \<open>this.indexToUuid\<close> (\<open>toUuid\<close>): every entry that is not \<open>-1\<close> pushes
  \<open>indexToUuid[collidingIndex]\<close>, which is \<open>undefined\<close> for a slot that is not bound. An
  entry read as \<open>undefined\<close> is not \<open>-1\<close> either and pushes \<open>indexToUuid[undefined]\<close>,
  that is \<open>undefined\<close>.
\<close>

fun collectCollisions ::
  "('f, 'v, 'q) three \<Rightarrow> 'f cell list \<Rightarrow> (int \<rightharpoonup> nat) \<Rightarrow> int option \<Rightarrow> nat list \<Rightarrow>
   nat option list \<Rightarrow> nat option list" where
  "collectCollisions lib buf toUuid index [] acc = acc"
| "collectCollisions lib buf toUuid index (j # js) acc =
     (let collidingIndex = intAt lib buf (offset index j) in
      collectCollisions lib buf toUuid index js
        (if collidingIndex \<noteq> Some (-1)
         then acc @ [case collidingIndex of None \<Rightarrow> None | Some c \<Rightarrow> toUuid c]
         else acc))"

text \<open>
  The body of the outer loop, for one handle of \<open>bodyUuids\<close>, in its three parts. The
  scratch objects \<open>transform\<close>, \<open>inverse\<close>, \<open>matrix\<close> and \<open>scale\<close> of the closure are
  written in full before they are read, so they carry nothing from one body to the next.

  \<open>bodyType\<close> is the \<open>type\<close> of the options, \<open>TYPE.DYNAMIC\<close> when absent.
\<close>

definition bodyType :: "body_options \<Rightarrow> body_type" where
  "bodyType opts = (case type opts of Some t \<Rightarrow> t | None \<Rightarrow> DYNAMIC)"

text \<open>
  The statement \<open>if (type === TYPE.DYNAMIC) { ... }\<close>: for a dynamic body the matrix of
  the slot, brought under the parent by the inverse of the parent's world matrix, is
  decomposed into the object's position and quaternion, and the scale goes to the
  scratch vector of the closure (\<open>scratch\<close>), not to the object; a body of another type
  is left as it is. \<open>None\<close> is the TypeError of a dynamic body whose object has no
  parent.
\<close>

definition applyTransform ::
  "('f, 'v, 'q) three \<Rightarrow> 'f cell list \<Rightarrow> int option \<Rightarrow> body_type \<Rightarrow>
   ('f, 'v, 'q) object3D \<Rightarrow> ('f, 'v, 'q) object3D option" where
  "applyTransform lib buf index ty object3D =
     (if ty = DYNAMIC
      then (case parent object3D of
              None \<Rightarrow> None
            | Some parentMatrixWorld \<Rightarrow>
                (let matrix = fromArray lib buf index;
                     inverse = getInverse lib parentMatrixWorld;
                     transform = multiplyMatrices lib inverse matrix;
                     (p, q, scratch) = decompose lib transform in
                 Some (object3D\<lparr>position := p, quaternion := q\<rparr>)))
      else Some object3D)"

text \<open>
  After the world matrix is written to the slot: the two velocities are read back when
  the handle has an entry for them, the collision list is emptied and filled again.
\<close>

definition readBack ::
  "('f, 'v, 'q) three \<Rightarrow> ('f, 'v, 'q) physics \<Rightarrow> nat \<Rightarrow> int option \<Rightarrow>
   error option \<times> ('f, 'v, 'q) physics" where
  "readBack lib s uuid index =
     (let s3 = (if bodyLinearVelocities s uuid \<noteq> None
                then s\<lparr>bodyLinearVelocities :=
                        (bodyLinearVelocities s)
                          (uuid \<mapsto> floatAt lib (objectMatrices s) (offset index 16))\<rparr>
                else s);
          s4 = (if bodyAngularVelocities s3 uuid \<noteq> None
                then s3\<lparr>bodyAngularVelocities :=
                        (bodyAngularVelocities s3)
                          (uuid \<mapsto> floatAt lib (objectMatrices s3) (offset index 17))\<rparr>
                else s3) in
      case collisions s4 uuid of
        None \<Rightarrow> (Some TypeError, s4)
      | Some _ \<Rightarrow>
          (None, s4\<lparr>collisions := (collisions s4)
             (uuid \<mapsto> collectCollisions lib (objectMatrices s4) (indexToUuid s4) index
                          [18..<BODY_DATA_SIZE] [])\<rparr>))"

text \<open>
  The whole body. Reading \<open>type\<close> of missing options, the parent or \<open>updateMatrices\<close> of
  a missing object, and the length of a missing collision list are TypeErrors.
\<close>

definition syncBody ::
  "('f, 'v, 'q) three \<Rightarrow> ('f, 'v, 'q) physics \<Rightarrow> nat \<Rightarrow>
   error option \<times> ('f, 'v, 'q) physics" where
  "syncBody lib s uuid =
     (let index = uuidToIndex s uuid in
      case bodyOptions s uuid of
        None \<Rightarrow> (Some TypeError, s)
      | Some opts \<Rightarrow>
          (case object3Ds s uuid of
             None \<Rightarrow> (Some TypeError, s)
           | Some object3D \<Rightarrow>
               (case applyTransform lib (objectMatrices s) index (bodyType opts) object3D of
                  None \<Rightarrow> (Some TypeError, s)
                | Some posed \<Rightarrow>
                    (let updated = updateMatrices lib posed;
                         s1 = s\<lparr>object3Ds := (object3Ds s)(uuid \<mapsto> updated)\<rparr> in
                     case setFloats lib (objectMatrices s1) (matrixWorld updated)
                            (offset index 0) of
                       Inl e \<Rightarrow> (Some e, s1)
                     | Inr buf \<Rightarrow> readBack lib (s1\<lparr>objectMatrices := buf\<rparr>) uuid index))))"

text \<open>The outer loop; an exception ends it.\<close>

fun syncBodies ::
  "('f, 'v, 'q) three \<Rightarrow> ('f, 'v, 'q) physics \<Rightarrow> nat list \<Rightarrow>
   error option \<times> ('f, 'v, 'q) physics" where
  "syncBodies lib s [] = (None, s)"
| "syncBodies lib s (uuid # uuids) =
     (case syncBody lib s uuid of
        (Some e, s') \<Rightarrow> (Some e, s')
      | (None, s') \<Rightarrow> syncBodies lib s' uuids)"

text \<open>
  The exchange of the buffer: skipped when the buffer is away; otherwise every body is
  synchronised and the buffer is posted to the worker, in the transfer list, which
  leaves the local views empty.
\<close>

definition exchange ::
  "('f, 'v, 'q) three \<Rightarrow> ('f, 'v, 'q) physics \<Rightarrow> error option \<times> ('f, 'v, 'q) physics" where
  "exchange lib s =
     (if byteLength (objectMatrices s) \<noteq> 0
      then (case syncBodies lib s (bodyUuids s) of
              (Some e, s') \<Rightarrow> (Some e, s')
            | (None, s') \<Rightarrow>
                (None, s'\<lparr>outbox := outbox s' @ [MSG_TRANSFER_DATA (objectMatrices s')],
                          objectMatrices := []\<rparr>))
      else (None, s))"

text \<open>
  The first statement of a tick of a ready system: a request that differs from the
  current debug state is carried out. \<open>sab\<close> says whether \<open>window.SharedArrayBuffer\<close>
  exists.
\<close>

definition toggleDebug :: "bool \<Rightarrow> ('f, 'v, 'q) physics \<Rightarrow> ('f, 'v, 'q) physics" where
  "toggleDebug sab s =
     (if debugRequested s \<noteq> debugEnabled s
      then (if debugRequested s then enableDebug sab s else disableDebug s)
      else s)"

text \<open>\<open>tick\<close>: nothing before \<open>READY\<close>; then the debug request, the exchange, the debug
  geometry.\<close>

definition tick ::
  "('f, 'v, 'q) three \<Rightarrow> bool \<Rightarrow> ('f, 'v, 'q) physics \<Rightarrow>
   error option \<times> ('f, 'v, 'q) physics" where
  "tick lib sab s =
     (if ready s
      then
        (case exchange lib (toggleDebug sab s) of
           (Some e, s2) \<Rightarrow> (Some e, s2)
         | (None, s2) \<Rightarrow> debugRender s2)
      else (None, s))"

subsection \<open>Sequences of registry operations\<close>

text \<open>
  The two operations that write the registry maps: the \<open>BODY_READY\<close> message and
  \<open>removeBody\<close>. \<open>registry_run\<close> applies a sequence of them in order.
\<close>

datatype registry_op = Bind nat int | Unbind nat

fun registry_step :: "('f, 'v, 'q) physics \<Rightarrow> registry_op \<Rightarrow> ('f, 'v, 'q) physics" where
  "registry_step s (Bind uuid index) = snd (onmessage s (BODY_READY uuid index))"
| "registry_step s (Unbind uuid) = removeBody s uuid"

fun registry_run :: "('f, 'v, 'q) physics \<Rightarrow> registry_op list \<Rightarrow> ('f, 'v, 'q) physics" where
  "registry_run s [] = s"
| "registry_run s (x # xs) = registry_run (registry_step s x) xs"

text \<open>
  A sequence in which every \<open>BODY_READY\<close> names a slot that has no handle in
  \<open>indexToUuid\<close> when the message arrives.
\<close>

fun slots_unbound :: "('f, 'v, 'q) physics \<Rightarrow> registry_op list \<Rightarrow> bool" where
  "slots_unbound s [] = True"
| "slots_unbound s (Bind uuid index # xs) =
     (indexToUuid s index = None \<and> slots_unbound (registry_step s (Bind uuid index)) xs)"
| "slots_unbound s (Unbind uuid # xs) = slots_unbound (registry_step s (Unbind uuid)) xs"

subsection \<open>An instance of the library for concrete runs\<close>

text \<open>
  three.js and the float view on translation matrices with small integer entries, where
  their arithmetic is exact: a value is an integer or \<open>undefined\<close>/NaN (\<open>None\<close>), the
  inverse negates the translation, the product adds the translations, \<open>decompose\<close>
  returns the translation, the identity quaternion and the unit scale, and
  \<open>updateMatrices\<close> places the object at its position under its parent. A reinterpreted
  element is right for the zero pattern only.
\<close>

type_synonym num = "int option"

definition nadd :: "num \<Rightarrow> num \<Rightarrow> num" where
  "nadd a b = (case (a, b) of (Some x, Some y) \<Rightarrow> Some (x + y) | _ \<Rightarrow> None)"

definition nneg :: "num \<Rightarrow> num" where
  "nneg a = map_option uminus a"

definition identity4 :: "num list" where
  "identity4 = map Some [1, 0, 0, 0,  0, 1, 0, 0,  0, 0, 1, 0,  0, 0, 0, 1]"

definition translation4 :: "num \<times> num \<times> num \<Rightarrow> num list" where
  "translation4 p =
     (case p of (x, y, z) \<Rightarrow>
        map Some [1, 0, 0, 0,  0, 1, 0, 0,  0, 0, 1, 0] @ [x, y, z, Some 1])"

definition translate_by :: "num list \<Rightarrow> num list \<Rightarrow> num list" where
  "translate_by a b =
     b[12 := nadd (a ! 12) (b ! 12), 13 := nadd (a ! 13) (b ! 13),
       14 := nadd (a ! 14) (b ! 14)]"

definition translation_three ::
  "(num, num \<times> num \<times> num, num \<times> num \<times> num \<times> num) three" where
  "translation_three =
     \<lparr> js_undefined = None,
       js_zero = Some 0,
       fround = (\<lambda>x. x),
       float_of_bits = (\<lambda>b. if b = 0 then Some 0 else None),
       bits_of_float = (\<lambda>x. 0),
       getInverse = (\<lambda>m. m[12 := nneg (m ! 12), 13 := nneg (m ! 13), 14 := nneg (m ! 14)]),
       multiplyMatrices = translate_by,
       decompose = (\<lambda>m. ((m ! 12, m ! 13, m ! 14),
                          (Some 0, Some 0, Some 0, Some 1),
                          (Some 1, Some 1, Some 1))),
       updateMatrices = (\<lambda>ob. ob\<lparr>matrixWorld :=
            translate_by (case parent ob of None \<Rightarrow> identity4 | Some pm \<Rightarrow> pm)
              (translation4 (position ob))\<rparr>) \<rparr>"

text \<open>A scene object at the origin, under a parent whose world matrix is the identity.\<close>

definition origin_object :: "(num, num \<times> num \<times> num, num \<times> num \<times> num \<times> num) object3D" where
  "origin_object =
     \<lparr> position = (Some 0, Some 0, Some 0),
       quaternion = (Some 0, Some 0, Some 0, Some 1),
       scale = (Some 1, Some 1, Some 1),
       parent = Some identity4,
       matrixWorld = identity4 \<rparr>"

subsection \<open>What a pass over the bodies may change\<close>

text \<open>
  \<open>sync_only s s'\<close>: the state \<open>s'\<close> differs from \<open>s\<close> at most in the scene objects, the
  transfer buffer, the cached velocities and the collision lists.
\<close>

definition sync_only :: "('f, 'v, 'q) physics \<Rightarrow> ('f, 'v, 'q) physics \<Rightarrow> bool" where
  "sync_only s s' =
     (s' = s\<lparr>object3Ds := object3Ds s', objectMatrices := objectMatrices s',
            bodyLinearVelocities := bodyLinearVelocities s',
            bodyAngularVelocities := bodyAngularVelocities s',
            collisions := collisions s'\<rparr>)"

subsection \<open>The debug state\<close>

text \<open>
  What debug rendering consists of: the flag \<open>debugEnabled\<close>, the debug mesh and whether
  it is in the scene, the \<open>SET_DEBUG\<close> requests sent to the worker, and the warnings.
\<close>

fun is_set_debug :: "'f worker_msg \<Rightarrow> bool" where
  "is_set_debug (MSG_SET_DEBUG b) = True"
| "is_set_debug m = False"

definition debugState ::
  "('f, 'v, 'q) physics \<Rightarrow> bool \<times> bool option \<times> 'f worker_msg list \<times> string list" where
  "debugState s = (debugEnabled s, debugMesh s, filter is_set_debug (outbox s), warnings s)"

subsection \<open>The parts of a slot that the write-back leaves alone\<close>

text \<open>
  \<open>tail_same buf buf'\<close>: the buffers have the same length and the same elements at
  every position outside the matrix part of a slot, that is at the offsets 16 to 25 of
  every slot (the velocities and the collisions).
\<close>

definition tail_same :: "'f cell list \<Rightarrow> 'f cell list \<Rightarrow> bool" where
  "tail_same buf buf' =
     (length buf' = length buf \<and>
      (\<forall>k < length buf. 16 \<le> k mod BODY_DATA_SIZE \<longrightarrow> buf' ! k = buf ! k))"

text \<open>
  The library's matrices have 16 elements: \<open>updateMatrices\<close> leaves a world matrix of
  that length.
\<close>

definition matrix4 :: "('f, 'v, 'q) three \<Rightarrow> bool" where
  "matrix4 lib = (\<forall>ob. length (matrixWorld (updateMatrices lib ob)) = 16)"

subsection \<open>A concrete session\<close>

text \<open>
  The record of one slot: the 16 elements of the matrix, the two velocities, the eight
  collision entries.
\<close>

definition slot_record :: "num list \<Rightarrow> num \<Rightarrow> num \<Rightarrow> int list \<Rightarrow> num cell list" where
  "slot_record m lv av cs = map Float32 m @ [Float32 lv, Float32 av] @ map Int32 cs"

definition idle_slot :: "num cell list" where
  "idle_slot = slot_record identity4 (Some 0) (Some 0) [-1, -1, -1, -1, -1, -1, -1, -1]"

text \<open>
  A buffer of six slots; slot 3 holds the translation by (1, 2, 3) and the collision
  entries \<open>cs\<close>, the other slots hold the identity and no collision.
\<close>

definition session_buffer :: "int list \<Rightarrow> num cell list" where
  "session_buffer cs =
     idle_slot @ idle_slot @ idle_slot
     @ slot_record (translation4 (Some 1, Some 2, Some 3)) (Some 0) (Some 0) cs
     @ idle_slot @ idle_slot"

text \<open>\<open>addBody\<close> called \<open>n\<close> times with the object at the origin and the same options.\<close>

fun addBodies ::
  "(num, num \<times> num \<times> num, num \<times> num \<times> num \<times> num) physics \<Rightarrow> body_options option \<Rightarrow> nat \<Rightarrow>
   (num, num \<times> num \<times> num, num \<times> num \<times> num \<times> num) physics" where
  "addBodies s opts 0 = s"
| "addBodies s opts (Suc n) =
     addBodies (snd (addBody translation_three s origin_object opts)) opts n"

text \<open>
  A session: eight bodies are added (handles 0 to 7), the worker binds handle 7 to slot 3
  and handle 5 to slot 5, reports \<open>READY\<close>, and hands over the buffer.
\<close>

definition session ::
  "body_options option \<Rightarrow> int list \<Rightarrow>
   (num, num \<times> num \<times> num, num \<times> num \<times> num \<times> num) physics" where
  "session opts cs =
     (let s1 = addBodies (init translation_three) opts 8;
          s2 = snd (onmessage s1 (BODY_READY 7 3));
          s3 = snd (onmessage s2 (BODY_READY 5 5));
          s4 = snd (onmessage s3 READY) in
      snd (onmessage s4 (TRANSFER_DATA (session_buffer cs) (Some 0))))"

subsection \<open>Bodies that the pass can process\<close>

text \<open>\<open>slotFits buf index\<close>: the index is a number and its slot lies inside the buffer.\<close>

definition slotFits :: "'f cell list \<Rightarrow> int option \<Rightarrow> bool" where
  "slotFits buf index =
     (case index of
        None \<Rightarrow> False
      | Some i \<Rightarrow> 0 \<le> i \<and> (i + 1) * int BODY_DATA_SIZE \<le> int (length buf))"

text \<open>
  \<open>liveBody s u\<close>: the handle has what \<open>addBody\<close> and \<open>BODY_READY\<close> give it: options, a
  scene object (with a parent when the body is dynamic), a collision list, and a slot
  inside the buffer.
\<close>

definition liveBody :: "('f, 'v, 'q) physics \<Rightarrow> nat \<Rightarrow> bool" where
  "liveBody s u =
     (case bodyOptions s u of
        None \<Rightarrow> False
      | Some opts \<Rightarrow>
          (case object3Ds s u of
             None \<Rightarrow> False
           | Some ob \<Rightarrow>
               (if bodyType opts = DYNAMIC then parent ob \<noteq> None else True) \<and>
               collisions s u \<noteq> None \<and>
               slotFits (objectMatrices s) (uuidToIndex s u)))"

subsection \<open>One body after the pass\<close>


section \<open>Properties\<close>

subsection \<open>\<open>indexOf\<close> and \<open>splice\<close>\<close>

lemma indexOf_ge: "- 1 \<le> indexOf xs v"
  by (induction xs) (auto simp: Let_def)

lemma indexOf_nonneg: "v \<in> set xs \<Longrightarrow> 0 \<le> indexOf xs v"
  by (induction xs) (auto simp: Let_def)

lemma indexOf_absent: "(indexOf xs v = - 1) = (v \<notin> set xs)"
proof (induction xs)
  case Nil
  show ?case by simp
next
  case (Cons x xs)
  have "indexOf xs v + 1 \<noteq> - 1" using indexOf_ge [of xs v] by arith
  with Cons show ?case by (auto simp: Let_def)
qed

text \<open>Removing the element at the position \<open>indexOf\<close> found removes the first occurrence.\<close>

lemma splice1_indexOf: "v \<in> set xs \<Longrightarrow> splice1 (indexOf xs v) xs = remove1 v xs"
proof (induction xs)
  case Nil
  then show ?case by simp
next
  case (Cons x xs)
  show ?case
  proof (cases "x = v")
    case True
    then show ?thesis by (simp add: splice1_def)
  next
    case False
    with Cons.prems have m: "v \<in> set xs" by simp
    then have ge: "0 \<le> indexOf xs v" by (rule indexOf_nonneg)
    then have ne: "indexOf xs v \<noteq> - 1" by arith
    have n: "nat (indexOf xs v + 1) = Suc (nat (indexOf xs v))" using ge by arith
    from Cons.IH [OF m]
    have "take (nat (indexOf xs v)) xs @ drop (nat (indexOf xs v) + 1) xs = remove1 v xs"
      by (simp add: splice1_def)
    with False ne n show ?thesis by (simp add: splice1_def Let_def)
  qed
qed

lemma remove1_once: "count_list xs v \<le> 1 \<Longrightarrow> v \<notin> set (remove1 v xs)"
  by (induction xs) (auto simp: count_list_0_iff split: if_splits)

subsection \<open>The registry under \<open>removeBody\<close>\<close>

lemma removeBody_bodyUuids: "bodyUuids (removeBody s uuid) = remove1 uuid (bodyUuids s)"
proof (cases "uuid \<in> set (bodyUuids s)")
  case True
  then have "indexOf (bodyUuids s) uuid \<noteq> - 1" by (simp add: indexOf_absent)
  with True show ?thesis by (simp add: removeBody_def Let_def splice1_indexOf)
next
  case False
  then have "indexOf (bodyUuids s) uuid = - 1" by (simp add: indexOf_absent)
  with False show ?thesis by (simp add: removeBody_def Let_def remove1_idem)
qed

lemma removeBody_uuidToIndex: "uuidToIndex (removeBody s uuid) = (uuidToIndex s)(uuid := None)"
  by (simp add: removeBody_def Let_def)

lemma removeBody_indexToUuid:
  "indexToUuid (removeBody s uuid) =
     (case uuidToIndex s uuid of None \<Rightarrow> indexToUuid s | Some i \<Rightarrow> (indexToUuid s)(i := None))"
  by (simp add: removeBody_def Let_def)

text \<open>
  Claim C8, as amended. Calling \<open>removeBody\<close> a second time on a handle raises no error
  (the function has no failing branch) and, when the handle occurs at most once in the
  live body list \<open>bodyUuids\<close>, leaves every field as the first call left it: the two
  registry maps, the live body list and the maps of objects, options, velocities and
  collisions. The one effect of the second call is one more \<open>REMOVE_BODY\<close> request to
  the worker. A handle that was never bound is covered: it does not occur in the list.
\<close>

theorem removeBody_idempotent:
  assumes "count_list (bodyUuids s) uuid \<le> 1"
  shows "removeBody (removeBody s uuid) uuid =
         (removeBody s uuid)\<lparr>outbox := outbox (removeBody s uuid) @ [MSG_REMOVE_BODY uuid]\<rparr>"
proof -
  define t where "t = removeBody s uuid"
  have "uuid \<notin> set (bodyUuids t)"
    using assms by (simp add: t_def removeBody_bodyUuids remove1_once)
  then have i: "indexOf (bodyUuids t) uuid = - 1" by (simp add: indexOf_absent)
  have u: "uuidToIndex t uuid = None" by (simp add: t_def removeBody_uuidToIndex)
  have o: "object3Ds t uuid = None" "bodyOptions t uuid = None" "collisions t uuid = None"
    "bodyLinearVelocities t uuid = None" "bodyAngularVelocities t uuid = None"
    by (simp_all add: t_def removeBody_def Let_def)
  have "removeBody t uuid = t\<lparr>outbox := outbox t @ [MSG_REMOVE_BODY uuid]\<rparr>"
    unfolding removeBody_def [of t uuid] using i u o by (simp add: Let_def fun_upd_idem)
  then show ?thesis by (simp add: t_def)
qed

text \<open>
  The theorem at a body that was added and bound to slot 3, and at a body that was added
  and never bound.
\<close>

theorem removeBody_idempotent_witness:
  "(let s = snd (onmessage (snd (addBody translation_three (init translation_three)
                                  origin_object None)) (BODY_READY 0 3)) in
    count_list (bodyUuids s) 0 \<le> 1 \<and>
    removeBody (removeBody s 0) 0 =
      (removeBody s 0)\<lparr>outbox := outbox (removeBody s 0) @ [MSG_REMOVE_BODY 0]\<rparr>) \<and>
   (let s = snd (addBody translation_three (init translation_three) origin_object None) in
    count_list (bodyUuids s) 0 \<le> 1 \<and>
    removeBody (removeBody s 0) 0 =
      (removeBody s 0)\<lparr>outbox := outbox (removeBody s 0) @ [MSG_REMOVE_BODY 0]\<rparr>)"
proof -
  let ?a = "snd (addBody translation_three (init translation_three) origin_object None)"
  let ?b = "snd (onmessage ?a (BODY_READY 0 3))"
  have ca: "count_list (bodyUuids ?a) 0 \<le> 1" by (simp add: addBody_def init_def Let_def)
  have cb: "count_list (bodyUuids ?b) 0 \<le> 1" by (simp add: addBody_def init_def Let_def)
  show ?thesis
    using ca cb removeBody_idempotent [OF ca] removeBody_idempotent [OF cb]
    by (simp only: Let_def simp_thms)
qed

text \<open>
  Claim C8 as stated fails where the worker acknowledged a handle twice: the handle is
  twice in the live body list, the first \<open>removeBody\<close> takes one occurrence out and the
  second call takes out the other, so the second call changes the list.
\<close>

theorem removeBody_twice_counterexample:
  "(let s = snd (onmessage (snd (onmessage (init translation_three) (BODY_READY 0 0)))
                   (BODY_READY 0 0)) in
    bodyUuids (removeBody s 0) = [0] \<and> bodyUuids (removeBody (removeBody s 0) 0) = [])"
  by (simp add: removeBody_def init_def Let_def splice1_def)

subsection \<open>The registry maps under sequences of operations\<close>

lemma bind_roundtrip:
  assumes J: "\<forall>h i. uuidToIndex s h = Some i \<longrightarrow> indexToUuid s i = Some h"
    and free: "indexToUuid s index = None"
    and s': "s' = registry_step s (Bind uuid index)"
  shows "\<forall>h i. uuidToIndex s' h = Some i \<longrightarrow> indexToUuid s' i = Some h"
proof (intro allI impI)
  fix h i
  assume b: "uuidToIndex s' h = Some i"
  show "indexToUuid s' i = Some h"
  proof (cases "h = uuid")
    case True
    with b s' show ?thesis by simp
  next
    case False
    with b s' have "uuidToIndex s h = Some i" by simp
    with J have k: "indexToUuid s i = Some h" by blast
    with free have "i \<noteq> index" by auto
    with k s' show ?thesis by simp
  qed
qed

lemma unbind_roundtrip:
  assumes J: "\<forall>h i. uuidToIndex s h = Some i \<longrightarrow> indexToUuid s i = Some h"
    and s': "s' = registry_step s (Unbind uuid)"
  shows "\<forall>h i. uuidToIndex s' h = Some i \<longrightarrow> indexToUuid s' i = Some h"
proof (intro allI impI)
  fix h i
  assume b: "uuidToIndex s' h = Some i"
  from b s' have ne: "h \<noteq> uuid" and old: "uuidToIndex s h = Some i"
    by (auto simp: removeBody_uuidToIndex split: if_splits)
  from J old have k: "indexToUuid s i = Some h" by blast
  show "indexToUuid s' i = Some h"
  proof (cases "uuidToIndex s uuid")
    case None
    with k s' show ?thesis by (simp add: removeBody_indexToUuid)
  next
    case (Some j)
    with J have "indexToUuid s j = Some uuid" by blast
    with k ne have "i \<noteq> j" by auto
    with k s' Some show ?thesis by (simp add: removeBody_indexToUuid)
  qed
qed

lemma run_roundtrip:
  "slots_unbound s ops \<Longrightarrow> \<forall>h i. uuidToIndex s h = Some i \<longrightarrow> indexToUuid s i = Some h \<Longrightarrow>
   \<forall>h i. uuidToIndex (registry_run s ops) h = Some i \<longrightarrow> indexToUuid (registry_run s ops) i = Some h"
proof (induction ops arbitrary: s)
  case Nil
  then show ?case by simp
next
  case (Cons x ops)
  show ?case
  proof (cases x)
    case (Bind uuid index)
    with Cons.prems(1) have f: "indexToUuid s index = None"
      and r: "slots_unbound (registry_step s x) ops" by simp_all
    have "\<forall>h i. uuidToIndex (registry_step s x) h = Some i \<longrightarrow> indexToUuid (registry_step s x) i = Some h"
      using bind_roundtrip [OF Cons.prems(2) f] Bind by blast
    from Cons.IH [OF r this] show ?thesis by simp
  next
    case (Unbind uuid)
    with Cons.prems(1) have r: "slots_unbound (registry_step s x) ops" by simp
    have "\<forall>h i. uuidToIndex (registry_step s x) h = Some i \<longrightarrow> indexToUuid (registry_step s x) i = Some h"
      using unbind_roundtrip [OF Cons.prems(2)] Unbind by blast
    from Cons.IH [OF r this] show ?thesis by simp
  qed
qed

text \<open>
  Claim C4, as amended. From the empty registry of the constructor, after every sequence
  of \<open>BODY_READY\<close> messages and \<open>removeBody\<close> calls in which each \<open>BODY_READY\<close> names a
  slot that is unbound when the message arrives, the two maps are inverse to each other
  on the bound handles: resolving a bound handle to its slot and the slot back gives the
  handle, and no two handles are bound to the same slot.
\<close>

theorem registry_bijection:
  assumes "slots_unbound (init lib) ops"
  shows "(\<forall>h i. uuidToIndex (registry_run (init lib) ops) h = Some i \<longrightarrow>
            indexToUuid (registry_run (init lib) ops) i = Some h) \<and>
         (\<forall>h h' i. uuidToIndex (registry_run (init lib) ops) h = Some i \<and>
            uuidToIndex (registry_run (init lib) ops) h' = Some i \<longrightarrow> h = h')"
proof -
  have "\<forall>h i. uuidToIndex (init lib) h = Some i \<longrightarrow> indexToUuid (init lib) i = Some h"
    by (simp add: init_def)
  from run_roundtrip [OF assms this]
  have J: "\<forall>h i. uuidToIndex (registry_run (init lib) ops) h = Some i \<longrightarrow>
            indexToUuid (registry_run (init lib) ops) i = Some h" .
  then show ?thesis by (metis option.inject)
qed

text \<open>
  The theorem on a run that binds handles 7 and 5, removes 7 twice, and binds handle 9 to
  the slot that 7 left.
\<close>

theorem registry_bijection_witness:
  "(let ops = [Bind 7 3, Bind 5 5, Unbind 7, Unbind 7, Bind 9 3];
        s = registry_run (init translation_three) ops in
    slots_unbound (init translation_three) ops \<and>
    uuidToIndex s 9 = Some 3 \<and> indexToUuid s 3 = Some 9 \<and>
    uuidToIndex s 5 = Some 5 \<and> indexToUuid s 5 = Some 5 \<and> uuidToIndex s 7 = None)"
proof -
  let ?ops = "[Bind 7 3, Bind 5 5, Unbind 7, Unbind 7, Bind 9 3]"
  have w: "slots_unbound (init translation_three) ?ops"
    by (simp add: init_def removeBody_def Let_def)
  have a: "uuidToIndex (registry_run (init translation_three) ?ops) 9 = Some 3"
      "uuidToIndex (registry_run (init translation_three) ?ops) 5 = Some 5" 
      "uuidToIndex (registry_run (init translation_three) ?ops) 7 = None"
    by (simp_all add: init_def removeBody_def Let_def)
  from registry_bijection [OF w] a show ?thesis unfolding Let_def using w by blast
qed

text \<open>
  Claim C4 as stated fails on the sequence \<open>BODY_READY(1, 0)\<close>, \<open>BODY_READY(2, 0)\<close>: the
  handler overwrites \<open>indexToUuid[0]\<close>, the live handles 1 and 2 share slot 0, and handle
  1 resolves to slot 0, which resolves to handle 2.
\<close>

theorem registry_shared_slot_counterexample:
  "(let s = registry_run (init translation_three) [Bind 1 0, Bind 2 0] in
    uuidToIndex s 1 = Some 0 \<and> uuidToIndex s 2 = Some 0 \<and> indexToUuid s 0 = Some 2)"
  by (simp add: init_def)

subsection \<open>A \<open>BODY_READY\<close> that arrives after \<open>removeBody\<close>\<close>

text \<open>
  Claim C3, the code at the failing input. A body is added (handle 0) and removed before
  the worker answers; the late \<open>BODY_READY\<close> for handle 0 is not ignored: it binds the
  handle to the slot in both maps and puts it in the live body list, although its
  options, object and collision list are gone. The next tick that owns the buffer throws
  a TypeError at \<open>this.bodyOptions[uuid].type\<close>, before the buffer is posted back.
\<close>

theorem late_body_ready_binds:
  "(let s1 = snd (addBody lib (init lib) ob opts);
        s2 = removeBody s1 0;
        s3 = snd (onmessage s2 (BODY_READY 0 index));
        s4 = snd (onmessage s3 READY);
        s5 = snd (onmessage s4 (TRANSFER_DATA (c # cs) d)) in
    uuidToIndex s3 0 = Some index \<and> indexToUuid s3 index = Some 0 \<and>
    bodyUuids s3 = [0] \<and> bodyOptions s3 0 = None \<and> object3Ds s3 0 = None \<and>
    fst (tick lib sab s5) = Some TypeError \<and>
    outbox (snd (tick lib sab s5)) = outbox s5)"
  by (simp add: addBody_def removeBody_def init_def Let_def tick_def exchange_def
      toggleDebug_def syncBody_def byteLength_def)

subsection \<open>\<open>removeShapes\<close>\<close>

text \<open>
  No operation writes a key of \<open>this.shapes\<close> other than the number of a body, so the
  property \<open>bodyUuid\<close> that the guard of \<open>removeShapes\<close> reads is never there, and the
  call leaves every list of shapes as it was.
\<close>

lemma removeShapes_keeps_shapes:
  "shapes s (KStr ''bodyUuid'') = None \<Longrightarrow> shapes (snd (removeShapes s bodyUuid shapesUuid)) = shapes s"
  by (simp add: removeShapes_def Let_def)

text \<open>
  Claim C5, the code at the failing input. The first shape added to body 0 gets the
  handle 0; after \<open>removeShapes(0, 0)\<close> the handle is still in the list of body 0: only
  the request to the worker was made.
\<close>

theorem removeShapes_keeps_shape:
  "(let s1 = snd (addShapes (init lib) 0);
        r = removeShapes s1 0 0 in
    fst (addShapes (init lib) 0) = 0 \<and> shapes s1 (KNum 0) = Some [0] \<and>
    fst r = None \<and> shapes (snd r) (KNum 0) = Some [0] \<and>
    outbox (snd r) = outbox s1 @ [MSG_REMOVE_SHAPES 0 0])"
  by (simp add: removeShapes_def addShapes_def init_def Let_def)

subsection \<open>\<open>bodyInitialized\<close>\<close>

text \<open>What \<open>bodyInitialized\<close> computes: the handle is bound, and to a slot other than 0.\<close>

lemma bodyInitialized_iff:
  "bodyInitialized s uuid = (\<exists>i. uuidToIndex s uuid = Some i \<and> i \<noteq> 0)"
  by (simp add: bodyInitialized_def split: option.split)

text \<open>
  Claim C6, the code at the failing input. The first body added gets the handle 0 and
  the worker binds it to slot 0; the handle is bound, and \<open>bodyInitialized\<close> returns
  false. What is falsy is the slot 0, not the handle 0: the same handle bound to slot 3
  is reported initialized, and handle 5 bound to slot 0 is not.
\<close>

theorem bodyInitialized_slot_zero:
  "(let s1 = snd (addBody lib (init lib) ob opts);
        s2 = snd (onmessage s1 (BODY_READY 0 0)) in
    fst (addBody lib (init lib) ob opts) = 0 \<and> uuidToIndex s2 0 = Some 0 \<and>
    bodyInitialized s2 0 = False \<and>
    bodyInitialized (snd (onmessage s1 (BODY_READY 0 3))) 0 = True \<and>
    bodyInitialized (snd (onmessage s1 (BODY_READY 5 0))) 5 = False)"
  by (simp add: bodyInitialized_def addBody_def init_def Let_def)

subsection \<open>The pass over the bodies: what it leaves alone\<close>

lemma sync_only_refl: "sync_only s s"
  by (simp add: sync_only_def)

lemma sync_only_trans: "sync_only s t \<Longrightarrow> sync_only t u \<Longrightarrow> sync_only s u"
proof -
  assume a: "sync_only s t" and b: "sync_only t u"
  from b have "u = t\<lparr>object3Ds := object3Ds u, objectMatrices := objectMatrices u,
            bodyLinearVelocities := bodyLinearVelocities u,
            bodyAngularVelocities := bodyAngularVelocities u,
            collisions := collisions u\<rparr>" by (simp add: sync_only_def)
  also from a have "t = s\<lparr>object3Ds := object3Ds t, objectMatrices := objectMatrices t,
            bodyLinearVelocities := bodyLinearVelocities t,
            bodyAngularVelocities := bodyAngularVelocities t,
            collisions := collisions t\<rparr>" by (simp add: sync_only_def)
  finally show ?thesis by (simp add: sync_only_def)
qed

lemma readBack_frame: "sync_only s (snd (readBack lib s uuid index))"
  by (cases "bodyLinearVelocities s uuid"; cases "bodyAngularVelocities s uuid"; cases "collisions s uuid")
     (simp_all add: readBack_def Let_def sync_only_def)

lemma sync_only_upd:
  "sync_only (s\<lparr>object3Ds := ob, objectMatrices := buf\<rparr>) s' \<Longrightarrow> sync_only s s'"
  by (rule sync_only_trans [of s "s\<lparr>object3Ds := ob, objectMatrices := buf\<rparr>"])
     (simp_all add: sync_only_def)

lemma syncBody_frame: "sync_only s (snd (syncBody lib s uuid))"
proof (cases "bodyOptions s uuid")
  case None
  then show ?thesis by (simp add: syncBody_def Let_def sync_only_refl)
next
  case (Some opts)
  note o = this
  show ?thesis
  proof (cases "object3Ds s uuid")
    case None
    with o show ?thesis by (simp add: syncBody_def Let_def sync_only_refl)
  next
    case (Some ob)
    note b = this
    show ?thesis
    proof (cases "applyTransform lib (objectMatrices s) (uuidToIndex s uuid) (bodyType opts) ob")
      case None
      with o b show ?thesis by (simp add: syncBody_def Let_def sync_only_refl)
    next
      case (Some posed)
      note p = this
      show ?thesis
      proof (cases "setFloats lib (objectMatrices s) (matrixWorld (updateMatrices lib posed))
                            (offset (uuidToIndex s uuid) 0)")
        case (Inl e)
        with o b p show ?thesis by (simp add: syncBody_def Let_def sync_only_def)
      next
        case (Inr buf)
        let ?t = "s\<lparr>object3Ds := (object3Ds s)(uuid \<mapsto> updateMatrices lib posed),
                    objectMatrices := buf\<rparr>"
        have r: "syncBody lib s uuid = readBack lib ?t uuid (uuidToIndex s uuid)"
          using o b p Inr by (simp add: syncBody_def Let_def)
        have "sync_only ?t (snd (syncBody lib s uuid))"
          unfolding r by (rule readBack_frame)
        then show ?thesis by (rule sync_only_upd)
      qed
    qed
  qed
qed

lemma syncBodies_frame: "sync_only s (snd (syncBodies lib s uuids))"
proof (induction uuids arbitrary: s)
  case Nil
  show ?case by (simp add: sync_only_refl)
next
  case (Cons u us)
  obtain e s1 where r: "syncBody lib s u = (e, s1)" by (cases "syncBody lib s u")
  have f: "sync_only s s1" using syncBody_frame [of s lib u] r by simp
  show ?case
  proof (cases e)
    case None
    with r have "syncBodies lib s (u # us) = syncBodies lib s1 us" by simp
    with sync_only_trans [OF f Cons.IH [of s1]] show ?thesis by simp
  next
    case (Some a)
    with r f show ?thesis by simp
  qed
qed

text \<open>
  The pass does not read \<open>warnings\<close> or \<open>debugRequested\<close>: it commutes with an update of
  these two fields.
\<close>

lemma readBack_downgrade:
  "readBack lib (s\<lparr>warnings := w, debugRequested := r\<rparr>) uuid index =
   (case readBack lib s uuid index of (e, s') \<Rightarrow> (e, s'\<lparr>warnings := w, debugRequested := r\<rparr>))"
  by (cases "bodyLinearVelocities s uuid"; cases "bodyAngularVelocities s uuid"; cases "collisions s uuid")
     (simp_all add: readBack_def Let_def)

lemma syncBody_downgrade:
  "syncBody lib (s\<lparr>warnings := w, debugRequested := r\<rparr>) uuid =
   (case syncBody lib s uuid of (e, s') \<Rightarrow> (e, s'\<lparr>warnings := w, debugRequested := r\<rparr>))"
proof (cases "bodyOptions s uuid")
  case None
  then show ?thesis by (simp add: syncBody_def Let_def)
next
  case (Some opts)
  note o = this
  show ?thesis
  proof (cases "object3Ds s uuid")
    case None
    with o show ?thesis by (simp add: syncBody_def)
  next
    case (Some ob)
    note b = this
    show ?thesis
    proof (cases "applyTransform lib (objectMatrices s) (uuidToIndex s uuid) (bodyType opts) ob")
      case None
      with o b show ?thesis by (simp add: syncBody_def Let_def)
    next
      case (Some posed)
      note p = this
      show ?thesis
      proof (cases "setFloats lib (objectMatrices s) (matrixWorld (updateMatrices lib posed))
                            (offset (uuidToIndex s uuid) 0)")
        case (Inl e)
        with o b p show ?thesis by (simp add: syncBody_def Let_def)
      next
        case (Inr buf)
        let ?t = "s\<lparr>object3Ds := (object3Ds s)(uuid \<mapsto> updateMatrices lib posed),
                    objectMatrices := buf\<rparr>"
        let ?u = "s\<lparr>warnings := w, debugRequested := r,
                    object3Ds := (object3Ds s)(uuid \<mapsto> updateMatrices lib posed),
                    objectMatrices := buf\<rparr>"
        have l: "syncBody lib (s\<lparr>warnings := w, debugRequested := r\<rparr>) uuid =
                 readBack lib ?u uuid (uuidToIndex s uuid)"
          using o b p Inr by (simp add: syncBody_def Let_def)
        have e: "?u = ?t\<lparr>warnings := w, debugRequested := r\<rparr>" by simp
        have r: "syncBody lib s uuid = readBack lib ?t uuid (uuidToIndex s uuid)"
          using o b p Inr by (simp add: syncBody_def Let_def)
        show ?thesis by (simp only: l e r readBack_downgrade)
      qed
    qed
  qed
qed

lemma syncBodies_downgrade:
  "syncBodies lib (s\<lparr>warnings := w, debugRequested := r\<rparr>) uuids =
   (case syncBodies lib s uuids of (e, s') \<Rightarrow> (e, s'\<lparr>warnings := w, debugRequested := r\<rparr>))"
proof (induction uuids arbitrary: s)
  case Nil
  show ?case by simp
next
  case (Cons u us)
  obtain e s1 where r: "syncBody lib s u = (e, s1)" by (cases "syncBody lib s u")
  show ?case
  proof (cases e)
    case None
    with r show ?thesis by (simp add: syncBody_downgrade Cons.IH)
  next
    case (Some a)
    with r show ?thesis by (simp add: syncBody_downgrade)
  qed
qed

lemma sync_only_fields:
  assumes "sync_only s s'"
  shows "debugRequested s' = debugRequested s" "debugEnabled s' = debugEnabled s"
    "debugMesh s' = debugMesh s" "debugIndex s' = debugIndex s"
    "debugNeedsUpdate s' = debugNeedsUpdate s" "debugDrawRange s' = debugDrawRange s"
    "outbox s' = outbox s" "warnings s' = warnings s" "ready s' = ready s"
    "bodyUuids s' = bodyUuids s" "uuidToIndex s' = uuidToIndex s"
    "indexToUuid s' = indexToUuid s" "bodyOptions s' = bodyOptions s"
proof -
  from assms have e: "s' = s\<lparr>object3Ds := object3Ds s', objectMatrices := objectMatrices s',
            bodyLinearVelocities := bodyLinearVelocities s',
            bodyAngularVelocities := bodyAngularVelocities s',
            collisions := collisions s'\<rparr>" by (simp add: sync_only_def)
  show "debugRequested s' = debugRequested s" using arg_cong [OF e, of debugRequested] by simp
  show "debugEnabled s' = debugEnabled s" using arg_cong [OF e, of debugEnabled] by simp
  show "debugMesh s' = debugMesh s" using arg_cong [OF e, of debugMesh] by simp
  show "debugIndex s' = debugIndex s" using arg_cong [OF e, of debugIndex] by simp
  show "debugNeedsUpdate s' = debugNeedsUpdate s" using arg_cong [OF e, of debugNeedsUpdate] by simp
  show "debugDrawRange s' = debugDrawRange s" using arg_cong [OF e, of debugDrawRange] by simp
  show "outbox s' = outbox s" using arg_cong [OF e, of outbox] by simp
  show "warnings s' = warnings s" using arg_cong [OF e, of warnings] by simp
  show "ready s' = ready s" using arg_cong [OF e, of ready] by simp
  show "bodyUuids s' = bodyUuids s" using arg_cong [OF e, of bodyUuids] by simp
  show "uuidToIndex s' = uuidToIndex s" using arg_cong [OF e, of uuidToIndex] by simp
  show "indexToUuid s' = indexToUuid s" using arg_cong [OF e, of indexToUuid] by simp
  show "bodyOptions s' = bodyOptions s" using arg_cong [OF e, of bodyOptions] by simp
qed

subsection \<open>A tick without the buffer\<close>

lemma exchange_empty: "objectMatrices s = [] \<Longrightarrow> exchange lib s = (None, s)"
  by (simp add: exchange_def byteLength_def)

lemma toggle_keeps:
  "objectMatrices (toggleDebug sab s) = objectMatrices s"
  "collisions (toggleDebug sab s) = collisions s"
  "bodyLinearVelocities (toggleDebug sab s) = bodyLinearVelocities s"
  "bodyAngularVelocities (toggleDebug sab s) = bodyAngularVelocities s"
  "object3Ds (toggleDebug sab s) = object3Ds s"
  by (simp_all add: toggleDebug_def enableDebug_def disableDebug_def Let_def split: option.split)

lemma toggle_outbox:
  "\<exists>ms. outbox (toggleDebug sab s) = outbox s @ ms \<and> (\<forall>b. MSG_TRANSFER_DATA b \<notin> set ms)"
  by (simp add: toggleDebug_def enableDebug_def disableDebug_def Let_def split: option.split)

lemma debugRender_keeps:
  "objectMatrices (snd (debugRender s)) = objectMatrices s"
  "collisions (snd (debugRender s)) = collisions s"
  "bodyLinearVelocities (snd (debugRender s)) = bodyLinearVelocities s"
  "bodyAngularVelocities (snd (debugRender s)) = bodyAngularVelocities s"
  "object3Ds (snd (debugRender s)) = object3Ds s"
  "outbox (snd (debugRender s)) = outbox s"
  by (simp_all add: debugRender_def Let_def split: option.split)

lemma tick_empty:
  "objectMatrices s = [] \<Longrightarrow>
   tick lib sab s = (if ready s then debugRender (toggleDebug sab s) else (None, s))"
  using toggle_keeps(1) [of sab s]
  by (simp add: tick_def exchange_empty)

text \<open>
  Claim C7. When the transfer buffer is away (its byte length is 0) a tick does not
  touch it: the buffer stays empty, every collision list, both maps of cached velocities
  and every scene object are as before, what is sent to the worker during the tick
  contains no \<open>TRANSFER_DATA\<close>, and the outcome does not depend on the library that
  reads and writes buffer elements and matrices. Nothing is recorded for a later tick:
  the state has no field for it, and all that the tick may change is the debug state.
\<close>

theorem tick_without_buffer:
  assumes "objectMatrices s = []"
  shows "objectMatrices (snd (tick lib sab s)) = [] \<and>
         collisions (snd (tick lib sab s)) = collisions s \<and>
         bodyLinearVelocities (snd (tick lib sab s)) = bodyLinearVelocities s \<and>
         bodyAngularVelocities (snd (tick lib sab s)) = bodyAngularVelocities s \<and>
         object3Ds (snd (tick lib sab s)) = object3Ds s \<and>
         (\<exists>ms. outbox (snd (tick lib sab s)) = outbox s @ ms \<and>
               (\<forall>b. MSG_TRANSFER_DATA b \<notin> set ms)) \<and>
         tick lib' sab s = tick lib sab s"
proof (cases "ready s")
  case True
  with assms have t: "tick lib sab s = debugRender (toggleDebug sab s)"
    "tick lib' sab s = debugRender (toggleDebug sab s)"
    by (simp_all add: tick_empty)
  show ?thesis
    unfolding t using assms toggle_outbox [of sab s]
    by (simp add: debugRender_keeps toggle_keeps)
next
  case False
  with assms show ?thesis by (simp add: tick_def)
qed


text \<open>
  The theorem on a ready system with one bound body, before any \<open>TRANSFER_DATA\<close> came
  back.
\<close>

theorem tick_without_buffer_witness:
  "(let s = snd (onmessage (snd (onmessage (snd (addBody translation_three
                  (init translation_three) origin_object None)) (BODY_READY 0 0))) READY);
        s' = snd (tick translation_three True s) in
    objectMatrices s = [] \<and> objectMatrices s' = [] \<and> collisions s' = collisions s \<and>
    bodyLinearVelocities s' = bodyLinearVelocities s \<and>
    bodyAngularVelocities s' = bodyAngularVelocities s \<and> object3Ds s' = object3Ds s \<and>
    (\<exists>ms. outbox s' = outbox s @ ms \<and> (\<forall>b. MSG_TRANSFER_DATA b \<notin> set ms)))"
proof -
  let ?s = "snd (onmessage (snd (onmessage (snd (addBody translation_three
                  (init translation_three) origin_object None)) (BODY_READY 0 0))) READY)"
  have h: "objectMatrices ?s = []" by (simp add: addBody_def init_def Let_def)
  from tick_without_buffer [OF h, of translation_three True translation_three] h
  show ?thesis unfolding Let_def by blast
qed

subsection \<open>Debug rendering without shared memory\<close>

lemma exchange_downgrade:
  "exchange lib (s\<lparr>warnings := w, debugRequested := r\<rparr>) =
   (case exchange lib s of (e, s') \<Rightarrow> (e, s'\<lparr>warnings := w, debugRequested := r\<rparr>))"
proof (cases "byteLength (objectMatrices s) \<noteq> 0")
  case True
  obtain e s1 where r: "syncBodies lib s (bodyUuids s) = (e, s1)"
    by (cases "syncBodies lib s (bodyUuids s)")
  show ?thesis
  proof (cases e)
    case None
    with True r show ?thesis by (simp add: exchange_def syncBodies_downgrade)
  next
    case (Some a)
    with True r show ?thesis by (simp add: exchange_def syncBodies_downgrade)
  qed
next
  case False
  then show ?thesis by (simp add: exchange_def)
qed

lemma debugRender_downgrade:
  "debugRender (s\<lparr>warnings := w, debugRequested := r\<rparr>) =
   (case debugRender s of (e, s') \<Rightarrow> (e, s'\<lparr>warnings := w, debugRequested := r\<rparr>))"
  by (cases "debugMesh s") (simp_all add: debugRender_def Let_def)

lemma tick_on_downgrade:
  assumes "debugRequested s = debugEnabled s"
  shows "(if ready s
          then (case exchange lib (s\<lparr>warnings := w, debugRequested := r\<rparr>) of
                  (Some e, s2) \<Rightarrow> (Some e, s2)
                | (None, s2) \<Rightarrow> debugRender s2)
          else (None, s\<lparr>warnings := w, debugRequested := r\<rparr>)) =
         (case tick lib sab s of (e, s') \<Rightarrow> (e, s'\<lparr>warnings := w, debugRequested := r\<rparr>))"
proof (cases "ready s")
  case True
  obtain e s1 where x: "exchange lib s = (e, s1)" by (cases "exchange lib s")
  from assms have g: "toggleDebug sab s = s" by (simp add: toggleDebug_def)
  show ?thesis
  proof (cases e)
    case None
    with True x g show ?thesis
      by (simp add: tick_def exchange_downgrade debugRender_downgrade)
  next
    case (Some a)
    with True x g show ?thesis by (simp add: tick_def exchange_downgrade)
  qed
next
  case False
  then show ?thesis by (simp add: tick_def)
qed

lemma exchange_frame:
  "debugRequested (snd (exchange lib s)) = debugRequested s"
  "debugEnabled (snd (exchange lib s)) = debugEnabled s"
  "debugMesh (snd (exchange lib s)) = debugMesh s"
  "warnings (snd (exchange lib s)) = warnings s"
proof -
  obtain e s1 where r: "syncBodies lib s (bodyUuids s) = (e, s1)"
    by (cases "syncBodies lib s (bodyUuids s)")
  have f: "sync_only s s1" using syncBodies_frame [of s lib "bodyUuids s"] r by simp
  note k = sync_only_fields [OF f]
  show "debugRequested (snd (exchange lib s)) = debugRequested s"
    using r k by (cases e) (simp_all add: exchange_def)
  show "debugEnabled (snd (exchange lib s)) = debugEnabled s"
    using r k by (cases e) (simp_all add: exchange_def)
  show "debugMesh (snd (exchange lib s)) = debugMesh s"
    using r k by (cases e) (simp_all add: exchange_def)
  show "warnings (snd (exchange lib s)) = warnings s"
    using r k by (cases e) (simp_all add: exchange_def)
qed

lemma debugRender_frame:
  "debugRequested (snd (debugRender s)) = debugRequested s"
  "debugEnabled (snd (debugRender s)) = debugEnabled s"
  "debugMesh (snd (debugRender s)) = debugMesh s"
  "warnings (snd (debugRender s)) = warnings s"
  by (simp_all add: debugRender_def Let_def split: option.split)

lemma tick_after_toggle:
  "ready s \<Longrightarrow>
   debugRequested (snd (tick lib sab s)) = debugRequested (toggleDebug sab s) \<and>
   debugEnabled (snd (tick lib sab s)) = debugEnabled (toggleDebug sab s) \<and>
   debugMesh (snd (tick lib sab s)) = debugMesh (toggleDebug sab s) \<and>
   warnings (snd (tick lib sab s)) = warnings (toggleDebug sab s)"
proof -
  assume rd: "ready s"
  obtain e s1 where x: "exchange lib (toggleDebug sab s) = (e, s1)"
    by (cases "exchange lib (toggleDebug sab s)")
  note f = exchange_frame [of lib "toggleDebug sab s", unfolded x, simplified]
  show ?thesis
  proof (cases e)
    case None
    with rd x have "tick lib sab s = debugRender s1" by (simp add: tick_def)
    with f show ?thesis by (simp add: debugRender_frame)
  next
    case (Some a)
    with rd x have "tick lib sab s = (Some a, s1)" by (simp add: tick_def)
    with f show ?thesis by simp
  qed
qed

text \<open>
  Claim C9. Without \<open>SharedArrayBuffer\<close>, \<open>enableDebug\<close> has no failing branch: it
  reports the warning and resets the request. A tick of a ready system that finds the
  request is the tick of the same system without the request, with the warning added:
  the same outcome (no error that the other tick does not have), the same bodies,
  buffer and messages. After it debug is disabled and not requested, so the next tick
  has no debug action to take.
\<close>

theorem debug_downgrade:
  assumes "ready s" and "debugRequested s" and "\<not> debugEnabled s"
  shows "enableDebug False s =
           s\<lparr>warnings := warnings s @
               [''Physics debug rendering only available in browsers that support SharedArrayBuffers.''],
             debugRequested := False\<rparr> \<and>
         tick lib False s =
           (case tick lib False (s\<lparr>debugRequested := False\<rparr>) of
              (e, s') \<Rightarrow>
                (e, s'\<lparr>warnings := warnings s @
                        [''Physics debug rendering only available in browsers that support SharedArrayBuffers.''],
                       debugRequested := False\<rparr>)) \<and>
         debugEnabled (snd (tick lib False s)) = False \<and>
         debugRequested (snd (tick lib False s)) = False \<and>
         warnings (snd (tick lib False s)) =
           warnings s @
             [''Physics debug rendering only available in browsers that support SharedArrayBuffers.''] \<and>
         toggleDebug False (snd (tick lib False s)) = snd (tick lib False s)"
proof -
  let ?w = "warnings s @
       [''Physics debug rendering only available in browsers that support SharedArrayBuffers.'']"
  let ?s0 = "s\<lparr>debugRequested := False\<rparr>"
  have en: "enableDebug False s = s\<lparr>warnings := ?w, debugRequested := False\<rparr>"
    by (simp add: enableDebug_def)
  from assms have tg: "toggleDebug False s = ?s0\<lparr>warnings := ?w, debugRequested := False\<rparr>"
    by (simp add: toggleDebug_def en)
  from assms have q: "debugRequested ?s0 = debugEnabled ?s0" by simp
  from assms have "tick lib False s =
      (if ready ?s0
       then (case exchange lib (?s0\<lparr>warnings := ?w, debugRequested := False\<rparr>) of
               (Some e, s2) \<Rightarrow> (Some e, s2)
             | (None, s2) \<Rightarrow> debugRender s2)
       else (None, ?s0\<lparr>warnings := ?w, debugRequested := False\<rparr>))"
    by (simp only: tick_def tg) simp
  also have "\<dots> = (case tick lib False ?s0 of
                      (e, s') \<Rightarrow> (e, s'\<lparr>warnings := ?w, debugRequested := False\<rparr>))"
    by (rule tick_on_downgrade [OF q])
  finally have tk: "tick lib False s =
     (case tick lib False ?s0 of (e, s') \<Rightarrow> (e, s'\<lparr>warnings := ?w, debugRequested := False\<rparr>))" .
  from assms have de: "debugEnabled (toggleDebug False s) = False"
    "debugRequested (toggleDebug False s) = False"
    "warnings (toggleDebug False s) = ?w"
    by (simp_all add: toggleDebug_def en)
  with tick_after_toggle [OF assms(1), of lib False]
  have a: "debugEnabled (snd (tick lib False s)) = False"
    "debugRequested (snd (tick lib False s)) = False"
    "warnings (snd (tick lib False s)) = ?w" by simp_all
  then have "toggleDebug False (snd (tick lib False s)) = snd (tick lib False s)"
    by (simp add: toggleDebug_def)
  with en tk a show ?thesis by blast
qed


text \<open>The theorem on a fresh system after \<open>READY\<close> and \<open>setDebug(true)\<close>.\<close>

theorem debug_downgrade_witness:
  "(let s = setDebug (snd (onmessage (init translation_three) READY)) True;
        s' = snd (tick translation_three False s) in
    ready s \<and> debugRequested s \<and> \<not> debugEnabled s \<and>
    debugEnabled s' = False \<and> debugRequested s' = False \<and>
    warnings s' =
      [''Physics debug rendering only available in browsers that support SharedArrayBuffers.''] \<and>
    toggleDebug False s' = s')"
proof -
  let ?s = "setDebug (snd (onmessage (init translation_three) READY)) True"
  have h: "ready ?s" "debugRequested ?s" "\<not> debugEnabled ?s"
    by (simp_all add: setDebug_def init_def)
  have w: "warnings ?s = []" by (simp add: setDebug_def init_def)
  note c = debug_downgrade [OF h, of translation_three]
  from c have "warnings (snd (tick translation_three False ?s)) = warnings ?s @
      [''Physics debug rendering only available in browsers that support SharedArrayBuffers.'']"
    by blast
  then have k: "warnings (snd (tick translation_three False ?s)) =
      [''Physics debug rendering only available in browsers that support SharedArrayBuffers.'']"
    by (simp only: w append_Nil)
  from c h k show ?thesis unfolding Let_def by blast
qed

subsection \<open>When a debug request takes effect\<close>

lemma exchange_outbox:
  "filter is_set_debug (outbox (snd (exchange lib s))) = filter is_set_debug (outbox s)"
proof -
  obtain e s1 where r: "syncBodies lib s (bodyUuids s) = (e, s1)"
    by (cases "syncBodies lib s (bodyUuids s)")
  have f: "sync_only s s1" using syncBodies_frame [of s lib "bodyUuids s"] r by simp
  note k = sync_only_fields [OF f]
  show ?thesis using r k by (cases e) (simp_all add: exchange_def)
qed

lemma exchange_debugState: "debugState (snd (exchange lib s)) = debugState s"
  by (simp add: debugState_def exchange_frame exchange_outbox)

lemma debugRender_debugState: "debugState (snd (debugRender s)) = debugState s"
  by (simp add: debugState_def debugRender_def Let_def split: option.split)

lemma tick_debugState:
  "ready s \<Longrightarrow> debugState (snd (tick lib sab s)) = debugState (toggleDebug sab s)"
proof -
  assume rd: "ready s"
  obtain e s1 where x: "exchange lib (toggleDebug sab s) = (e, s1)"
    by (cases "exchange lib (toggleDebug sab s)")
  have f: "debugState s1 = debugState (toggleDebug sab s)"
    using exchange_debugState [of lib "toggleDebug sab s"] x by simp
  show ?thesis
  proof (cases e)
    case None
    with rd x have "tick lib sab s = debugRender s1" by (simp add: tick_def)
    with f show ?thesis by (simp add: debugRender_debugState)
  next
    case (Some a)
    with rd x have "tick lib sab s = (Some a, s1)" by (simp add: tick_def)
    with f show ?thesis by simp
  qed
qed

lemma operations_debugState:
  "debugState (snd (onmessage s ev)) = debugState s"
  "debugState (snd (addBody lib s ob opts)) = debugState s"
  "debugState (updateBody s uuid opts) = debugState s"
  "debugState (removeBody s uuid) = debugState s"
  "debugState (snd (addShapes s uuid)) = debugState s"
  "debugState (snd (removeShapes s uuid sh)) = debugState s"
proof -
  show "debugState (snd (onmessage s ev)) = debugState s"
    by (cases ev) (simp_all add: debugState_def split: option.split)
  show "debugState (snd (addBody lib s ob opts)) = debugState s"
    by (simp add: debugState_def addBody_def Let_def)
  show "debugState (updateBody s uuid opts) = debugState s"
    by (simp add: debugState_def updateBody_def)
  show "debugState (removeBody s uuid) = debugState s"
    by (simp add: debugState_def removeBody_def Let_def)
  show "debugState (snd (addShapes s uuid)) = debugState s"
    by (simp add: debugState_def addShapes_def Let_def)
  show "debugState (snd (removeShapes s uuid sh)) = debugState s"
    by (simp add: debugState_def removeShapes_def Let_def split: option.split)
qed

lemma toggle_setDebug_enabled:
  "debugEnabled (toggleDebug sab (setDebug s d)) = (if sab then d else debugEnabled s \<and> d)"
  by (cases d; cases "debugEnabled s"; cases sab; cases "debugMesh s")
     (simp_all add: toggleDebug_def setDebug_def enableDebug_def disableDebug_def Let_def)

text \<open>
  Claim C10. \<open>setDebug\<close> writes the field \<open>debugRequested\<close> and nothing else; the debug
  state (the flag \<open>debugEnabled\<close>, the mesh and its place in the scene, the \<open>SET_DEBUG\<close>
  requests to the worker, the warnings) is as before. A tick before \<open>READY\<close> changes
  nothing at all. A tick of a ready system leaves the debug state that its first
  statement, the toggle, produced: with shared memory \<open>debugEnabled\<close> becomes the value
  requested, without it debug can only go off. No message of the worker and no
  operation on bodies or shapes changes the debug state.
\<close>

theorem setDebug_deferred:
  "setDebug s d = s\<lparr>debugRequested := d\<rparr> \<and>
   debugState (setDebug s d) = debugState s \<and>
   (\<not> ready s \<longrightarrow> tick lib sab s = (None, s)) \<and>
   (ready s \<longrightarrow> debugState (snd (tick lib sab s)) = debugState (toggleDebug sab s)) \<and>
   (ready s \<longrightarrow> sab \<longrightarrow> debugEnabled (snd (tick lib sab (setDebug s d))) = d) \<and>
   (ready s \<longrightarrow> \<not> sab \<longrightarrow> debugEnabled (snd (tick lib sab (setDebug s d))) = (debugEnabled s \<and> d)) \<and>
   debugState (snd (onmessage s ev)) = debugState s \<and>
   debugState (snd (addBody lib s ob opts)) = debugState s \<and>
   debugState (updateBody s uuid opts) = debugState s \<and>
   debugState (removeBody s uuid) = debugState s \<and>
   debugState (snd (addShapes s uuid)) = debugState s \<and>
   debugState (snd (removeShapes s uuid sh)) = debugState s"
proof -
  have a: "setDebug s d = s\<lparr>debugRequested := d\<rparr>" by (simp add: setDebug_def)
  have b: "debugState (setDebug s d) = debugState s" by (simp add: setDebug_def debugState_def)
  have c: "\<not> ready s \<longrightarrow> tick lib sab s = (None, s)" by (simp add: tick_def)
  have e: "ready s \<longrightarrow> debugState (snd (tick lib sab s)) = debugState (toggleDebug sab s)"
    by (simp add: tick_debugState)
  have r: "ready (setDebug s d) = ready s" by (simp add: setDebug_def)
  have t: "ready s \<longrightarrow> debugEnabled (snd (tick lib sab (setDebug s d)))
      = (if sab then d else debugEnabled s \<and> d)"
    using tick_debugState [of "setDebug s d" lib sab] r
    by (simp add: debugState_def toggle_setDebug_enabled)
  have f: "ready s \<longrightarrow> sab \<longrightarrow> debugEnabled (snd (tick lib sab (setDebug s d))) = d"
    using t by auto
  have g: "ready s \<longrightarrow> \<not> sab \<longrightarrow>
      debugEnabled (snd (tick lib sab (setDebug s d))) = (debugEnabled s \<and> d)"
    using t by auto
  show ?thesis
    by (intro conjI) (rule a b c e f g operations_debugState)+
qed

text \<open>
  The theorem on a fresh system: the request changes no debug state, the tick before
  \<open>READY\<close> changes nothing, the tick after \<open>READY\<close> enables debug.
\<close>

theorem setDebug_deferred_witness:
  "(let s0 = setDebug (init translation_three) True;
        s1 = snd (onmessage s0 READY) in
    debugState s0 = debugState (init translation_three) \<and>
    \<not> ready s0 \<and> tick translation_three True s0 = (None, s0) \<and>
    ready s1 \<and> debugState s1 = debugState (init translation_three) \<and>
    debugEnabled (snd (tick translation_three True (setDebug s1 True))) = True)"
proof -
  let ?i = "init translation_three :: (num, num \<times> num \<times> num, num \<times> num \<times> num \<times> num) physics"
  let ?s0 = "setDebug ?i True"
  let ?s1 = "snd (onmessage ?s0 READY)"
  have n: "\<not> ready ?s0" by (simp add: setDebug_def init_def)
  have r: "ready ?s1" by simp
  have d: "debugState ?s1 = debugState ?i" by (simp add: debugState_def setDebug_def)
  from setDebug_deferred [of ?i True translation_three True]
    setDebug_deferred [of ?s0 True translation_three True]
    setDebug_deferred [of ?s1 True translation_three True] n r d
  show ?thesis unfolding Let_def by blast
qed

subsection \<open>The loop body, case by case\<close>

text \<open>The inner loop keeps the entries that are not \<open>-1\<close>, in order, resolved through the map.\<close>

lemma collectCollisions_eq:
  "collectCollisions lib buf m index js acc =
   acc @ map (\<lambda>c. case c of None \<Rightarrow> None | Some c \<Rightarrow> m c)
           (filter (\<lambda>c. c \<noteq> Some (- 1)) (map (\<lambda>j. intAt lib buf (offset index j)) js))"
  by (induction js arbitrary: acc) (simp_all add: Let_def)

lemma tail_same_refl: "tail_same buf buf"
  by (simp add: tail_same_def)

lemma tail_same_trans: "tail_same a b \<Longrightarrow> tail_same b c \<Longrightarrow> tail_same a c"
  by (simp add: tail_same_def)

text \<open>Writing a matrix of 16 elements at a slot leaves offsets 16 to 25 of every slot alone.\<close>

lemma setFloats_tail_same:
  assumes r: "setFloats lib buf src (offset index 0) = Inr buf'"
    and l: "length src = 16"
  shows "tail_same buf buf'"
proof -
  define off where "off = (case offset index 0 of None \<Rightarrow> 0 | Some n \<Rightarrow> n)"
  from r have ok: "0 \<le> off" "16 + off \<le> int (length buf)"
    and b: "buf' = take (nat off) buf @ map (\<lambda>x. Float32 (fround lib x)) src
                @ drop (nat off + length src) buf"
    by (auto simp: setFloats_def off_def Let_def l split: if_splits)
  obtain i where i: "nat off = i * BODY_DATA_SIZE"
  proof (cases index)
    case None
    then have "nat off = 0 * BODY_DATA_SIZE" by (simp add: off_def offset_def)
    then show ?thesis by (rule that)
  next
    case (Some n)
    then have o: "off = n * int BODY_DATA_SIZE" by (simp add: off_def offset_def)
    with ok have "0 \<le> n" by (simp add: BODY_DATA_SIZE_def zero_le_mult_iff)
    with o have "nat off = nat n * BODY_DATA_SIZE" by (simp add: nat_mult_distrib)
    then show ?thesis by (rule that)
  qed
  have len: "length buf' = length buf" using ok b l by simp
  have "buf' ! k = buf ! k" if k: "k < length buf" and m: "16 \<le> k mod BODY_DATA_SIZE" for k
  proof -
    have notin: "\<not> (nat off \<le> k \<and> k < nat off + 16)"
    proof
      assume a: "nat off \<le> k \<and> k < nat off + 16"
      then obtain r where "k = i * BODY_DATA_SIZE + r" "r < 16"
        using i by (metis add_less_cancel_left le_Suc_ex)
      then have "k mod BODY_DATA_SIZE = r" by (simp add: BODY_DATA_SIZE_def)
      with m \<open>r < 16\<close> show False by simp
    qed
    show ?thesis
    proof (cases "k < nat off")
      case True
      with k b show ?thesis by (simp add: nth_append)
    next
      case False
      with notin have g: "nat off + 16 \<le> k" by simp
      with k b l ok show ?thesis by (auto simp: nth_append min_def)
    qed
  qed
  with len show ?thesis by (simp add: tail_same_def)
qed

lemma intAt_tail_same:
  assumes "tail_same buf buf'" and "16 \<le> j" and "j < BODY_DATA_SIZE"
  shows "intAt lib buf' (offset index j) = intAt lib buf (offset index j)"
proof (cases index)
  case None
  then show ?thesis by (simp add: offset_def intAt_def)
next
  case (Some i)
  let ?n = "i * int BODY_DATA_SIZE + int j"
  from assms(1) have len: "length buf' = length buf" by (simp add: tail_same_def)
  show ?thesis
  proof (cases "0 \<le> ?n \<and> ?n < int (length buf)")
    case True
    then have "0 \<le> i" using assms(3) by (simp add: BODY_DATA_SIZE_def) 
    then have "nat ?n = nat i * BODY_DATA_SIZE + j" by (simp add: nat_add_distrib nat_mult_distrib)
    then have "nat ?n mod BODY_DATA_SIZE = j" using assms(3) by simp
    with assms(2) have m: "16 \<le> nat ?n mod BODY_DATA_SIZE" by simp
    from True have lt: "nat ?n < length buf" by linarith
    from assms(1) have "\<forall>k < length buf. 16 \<le> k mod BODY_DATA_SIZE \<longrightarrow> buf' ! k = buf ! k"
      by (simp add: tail_same_def)
    with lt m have "buf' ! nat ?n = buf ! nat ?n" by blast
    with True len Some show ?thesis by (simp add: offset_def intAt_def)
  next
    case False
    with len Some show ?thesis by (auto simp: offset_def intAt_def)
  qed
qed


lemma collectCollisions_tail_same:
  assumes "tail_same buf buf'"
  shows "collectCollisions lib buf' m index [18..<BODY_DATA_SIZE] [] =
         collectCollisions lib buf m index [18..<BODY_DATA_SIZE] []"
proof -
  have "map (\<lambda>j. intAt lib buf' (offset index j)) [18..<BODY_DATA_SIZE] =
        map (\<lambda>j. intAt lib buf (offset index j)) [18..<BODY_DATA_SIZE]"
    by (rule map_cong [OF refl]) (simp add: intAt_tail_same [OF assms])
  then show ?thesis by (simp only: collectCollisions_eq)
qed

text \<open>
  The ways through the loop body: a TypeError before anything is written; a RangeError of
  the write-back, after the object was updated; or the write-back and what follows it.
\<close>

lemma syncBody_cases:
  obtains
    (failed) "syncBody lib s u = (Some TypeError, s)"
  | (rejected) opts ob posed e where
      "bodyOptions s u = Some opts" and "object3Ds s u = Some ob"
      and "applyTransform lib (objectMatrices s) (uuidToIndex s u) (bodyType opts) ob = Some posed"
      and "setFloats lib (objectMatrices s) (matrixWorld (updateMatrices lib posed))
             (offset (uuidToIndex s u) 0) = Inl e"
      and "syncBody lib s u =
             (Some e, s\<lparr>object3Ds := (object3Ds s)(u \<mapsto> updateMatrices lib posed)\<rparr>)"
  | (written) opts ob posed buf where
      "bodyOptions s u = Some opts" and "object3Ds s u = Some ob"
      and "applyTransform lib (objectMatrices s) (uuidToIndex s u) (bodyType opts) ob = Some posed"
      and "setFloats lib (objectMatrices s) (matrixWorld (updateMatrices lib posed))
             (offset (uuidToIndex s u) 0) = Inr buf"
      and "syncBody lib s u =
             readBack lib (s\<lparr>object3Ds := (object3Ds s)(u \<mapsto> updateMatrices lib posed),
                             objectMatrices := buf\<rparr>) u (uuidToIndex s u)"
proof (cases "bodyOptions s u")
  case None
  then have "syncBody lib s u = (Some TypeError, s)" by (simp add: syncBody_def Let_def)
  then show ?thesis by (rule failed)
next
  case (Some opts)
  note o = this
  show ?thesis
  proof (cases "object3Ds s u")
    case None
    with o have "syncBody lib s u = (Some TypeError, s)" by (simp add: syncBody_def Let_def)
    then show ?thesis by (rule failed)
  next
    case (Some ob)
    note b = this
    show ?thesis
    proof (cases "applyTransform lib (objectMatrices s) (uuidToIndex s u) (bodyType opts) ob")
      case None
      with o b have "syncBody lib s u = (Some TypeError, s)" by (simp add: syncBody_def Let_def)
      then show ?thesis by (rule failed)
    next
      case (Some posed)
      note p = this
      show ?thesis
      proof (cases "setFloats lib (objectMatrices s) (matrixWorld (updateMatrices lib posed))
                            (offset (uuidToIndex s u) 0)")
        case (Inl e)
        with o b p have "syncBody lib s u =
             (Some e, s\<lparr>object3Ds := (object3Ds s)(u \<mapsto> updateMatrices lib posed)\<rparr>)"
          by (simp add: syncBody_def Let_def)
        from rejected [OF o b p Inl this] show ?thesis .
      next
        case (Inr buf)
        with o b p have "syncBody lib s u =
             readBack lib (s\<lparr>object3Ds := (object3Ds s)(u \<mapsto> updateMatrices lib posed),
                             objectMatrices := buf\<rparr>) u (uuidToIndex s u)"
          by (simp add: syncBody_def Let_def)
        from written [OF o b p Inr this] show ?thesis .
      qed
    qed
  qed
qed

lemma readBack_results:
  "objectMatrices (snd (readBack lib s u index)) = objectMatrices s"
  "object3Ds (snd (readBack lib s u index)) = object3Ds s"
  "h \<noteq> u \<Longrightarrow> collisions (snd (readBack lib s u index)) h = collisions s h"
  "fst (readBack lib s u index) = None \<Longrightarrow>
     collisions (snd (readBack lib s u index)) u =
       Some (collectCollisions lib (objectMatrices s) (indexToUuid s) index [18..<BODY_DATA_SIZE] [])"
  by (cases "bodyLinearVelocities s u"; cases "bodyAngularVelocities s u"; cases "collisions s u";
      simp add: readBack_def Let_def)+

lemma syncBody_buffer:
  assumes "matrix4 lib"
  shows "tail_same (objectMatrices s) (objectMatrices (snd (syncBody lib s u)))"
proof (cases rule: syncBody_cases [where lib = lib and s = s and u = u])
  case failed
  then show ?thesis by (simp add: tail_same_refl)
next
  case (rejected opts ob posed e)
  then show ?thesis by (simp add: tail_same_refl)
next
  case (written opts ob posed buf)
  from assms have "length (matrixWorld (updateMatrices lib posed)) = 16" by (simp add: matrix4_def)
  from setFloats_tail_same [OF written(4) this] written(5) show ?thesis
    by (simp add: readBack_results)
qed

lemma syncBody_other_collisions:
  "h \<noteq> u \<Longrightarrow> collisions (snd (syncBody lib s u)) h = collisions s h"
  by (cases rule: syncBody_cases [where lib = lib and s = s and u = u]) (simp_all add: readBack_results)

lemma syncBody_own_collisions:
  assumes "matrix4 lib" and "fst (syncBody lib s u) = None"
  shows "collisions (snd (syncBody lib s u)) u =
         Some (collectCollisions lib (objectMatrices s) (indexToUuid s) (uuidToIndex s u)
                 [18..<BODY_DATA_SIZE] [])"
proof (cases rule: syncBody_cases [where lib = lib and s = s and u = u])
  case failed
  with assms(2) show ?thesis by simp
next
  case (rejected opts ob posed e)
  with assms(2) show ?thesis by simp
next
  case (written opts ob posed buf)
  let ?t = "s\<lparr>object3Ds := (object3Ds s)(u \<mapsto> updateMatrices lib posed), objectMatrices := buf\<rparr>"
  from assms(1) have "length (matrixWorld (updateMatrices lib posed)) = 16" by (simp add: matrix4_def)
  from setFloats_tail_same [OF written(4) this] have ts: "tail_same (objectMatrices s) buf" .
  from assms(2) written(5) have "fst (readBack lib ?t u (uuidToIndex s u)) = None" by simp
  from readBack_results(4) [OF this] written(5)
  have "collisions (snd (syncBody lib s u)) u =
        Some (collectCollisions lib buf (indexToUuid s) (uuidToIndex s u) [18..<BODY_DATA_SIZE] [])"
    by simp
  with collectCollisions_tail_same [OF ts] show ?thesis by simp
qed







lemma syncBody_other_object:
  "h \<noteq> u \<Longrightarrow> object3Ds (snd (syncBody lib s u)) h = object3Ds s h"
  by (cases rule: syncBody_cases [where lib = lib and s = s and u = u])
     (simp_all add: readBack_results)




lemma toggle_registry:
  "bodyUuids (toggleDebug sab s) = bodyUuids s"
  "uuidToIndex (toggleDebug sab s) = uuidToIndex s"
  "indexToUuid (toggleDebug sab s) = indexToUuid s"
  "bodyOptions (toggleDebug sab s) = bodyOptions s"
  by (simp_all add: toggleDebug_def enableDebug_def disableDebug_def Let_def split: option.split)

subsection \<open>The pass runs to its end\<close>

lemma readBack_completes:
  "collisions s u \<noteq> None \<Longrightarrow> fst (readBack lib s u index) = None"
  by (cases "bodyLinearVelocities s u"; cases "bodyAngularVelocities s u"; cases "collisions s u";
      simp add: readBack_def Let_def)

lemma setFloats_fits:
  assumes "slotFits buf index" and "length src = 16"
  shows "\<exists>buf'. setFloats lib buf src (offset index 0) = Inr buf'"
proof -
  from assms(1) obtain i where i: "index = Some i" "0 \<le> i"
    "(i + 1) * int BODY_DATA_SIZE \<le> int (length buf)"
    by (cases index) (auto simp: slotFits_def)
  then have "0 \<le> i * int BODY_DATA_SIZE" "16 + i * int BODY_DATA_SIZE \<le> int (length buf)"
    by (simp_all add: BODY_DATA_SIZE_def)
  with i(1) assms(2) show ?thesis by (simp add: setFloats_def offset_def Let_def)
qed

text \<open>A body that has all it needs goes through the loop body without an exception.\<close>

lemma syncBody_completes:
  assumes "matrix4 lib" and "liveBody s u"
  shows "fst (syncBody lib s u) = None"
proof -
  from assms(2) obtain opts ob where o: "bodyOptions s u = Some opts"
    and b: "object3Ds s u = Some ob"
    and p: "bodyType opts = DYNAMIC \<Longrightarrow> parent ob \<noteq> None"
    and c: "collisions s u \<noteq> None"
    and f: "slotFits (objectMatrices s) (uuidToIndex s u)"
    by (cases "bodyOptions s u"; cases "object3Ds s u")
       (auto simp: liveBody_def split: if_splits)
  obtain posed where a: "applyTransform lib (objectMatrices s) (uuidToIndex s u)
                           (bodyType opts) ob = Some posed"
  proof (cases "bodyType opts = DYNAMIC")
    case True
    from p [OF True] obtain pm where pm: "parent ob = Some pm" by (cases "parent ob") auto
    obtain p' q' sc where "decompose lib (multiplyMatrices lib (getInverse lib pm)
        (fromArray lib (objectMatrices s) (uuidToIndex s u))) = (p', q', sc)"
      by (cases "decompose lib (multiplyMatrices lib (getInverse lib pm)
        (fromArray lib (objectMatrices s) (uuidToIndex s u)))")
    with True pm have "applyTransform lib (objectMatrices s) (uuidToIndex s u)
        (bodyType opts) ob = Some (ob\<lparr>position := p', quaternion := q'\<rparr>)"
      by (simp add: applyTransform_def Let_def)
    then show ?thesis by (rule that)
  next
    case False
    with that show ?thesis by (simp add: applyTransform_def)
  qed
  from assms(1) have "length (matrixWorld (updateMatrices lib posed)) = 16"
    by (simp add: matrix4_def)
  from setFloats_fits [OF f this] obtain buf
    where w: "setFloats lib (objectMatrices s) (matrixWorld (updateMatrices lib posed))
                (offset (uuidToIndex s u) 0) = Inr buf" by blast
  let ?t = "s\<lparr>object3Ds := (object3Ds s)(u \<mapsto> updateMatrices lib posed), objectMatrices := buf\<rparr>"
  from o b a w have "syncBody lib s u = readBack lib ?t u (uuidToIndex s u)"
    by (simp add: syncBody_def Let_def)
  moreover from c have "fst (readBack lib ?t u (uuidToIndex s u)) = None"
    by (intro readBack_completes) simp
  ultimately show ?thesis by simp
qed

lemma slotFits_length:
  "length buf' = length buf \<Longrightarrow> slotFits buf' index = slotFits buf index"
  by (cases index) (simp_all add: slotFits_def)


lemma liveBody_cong:
  assumes "bodyOptions s' = bodyOptions s" and "object3Ds s' h = object3Ds s h"
    and "collisions s' h = collisions s h" and "uuidToIndex s' = uuidToIndex s"
    and "length (objectMatrices s') = length (objectMatrices s)"
  shows "liveBody s' h = liveBody s h"
  using assms(1-4) slotFits_length [OF assms(5)]
  by (cases "bodyOptions s h"; cases "object3Ds s h") (simp_all add: liveBody_def)

text \<open>The loop body for one handle leaves the other handles as fit as they were.\<close>

lemma syncBody_keeps_live:
  assumes "matrix4 lib" and "h \<noteq> u"
  shows "liveBody (snd (syncBody lib s u)) h = liveBody s h"
proof (rule liveBody_cong)
  have fr: "sync_only s (snd (syncBody lib s u))" by (rule syncBody_frame)
  from sync_only_fields [OF fr]
  show "bodyOptions (snd (syncBody lib s u)) = bodyOptions s"
    and "uuidToIndex (snd (syncBody lib s u)) = uuidToIndex s" by simp_all
  from assms(2) show "object3Ds (snd (syncBody lib s u)) h = object3Ds s h"
    by (rule syncBody_other_object)
  from assms(2) show "collisions (snd (syncBody lib s u)) h = collisions s h"
    by (rule syncBody_other_collisions)
  from syncBody_buffer [OF assms(1), of s u]
  show "length (objectMatrices (snd (syncBody lib s u))) = length (objectMatrices s)"
    by (simp add: tail_same_def)
qed

lemma syncBodies_completes:
  assumes "matrix4 lib"
  shows "distinct us \<Longrightarrow> list_all (liveBody s) us \<Longrightarrow> fst (syncBodies lib s us) = None"
proof (induction us arbitrary: s)
  case Nil
  show ?case by simp
next
  case (Cons u us)
  obtain e s1 where r: "syncBody lib s u = (e, s1)" by (cases "syncBody lib s u")
  from Cons.prems(2) have "liveBody s u" by simp
  from syncBody_completes [OF assms this] r have e: "e = None" by simp
  have "list_all (liveBody s1) us"
    unfolding list_all_iff
  proof
    fix h
    assume m: "h \<in> set us"
    with Cons.prems(1) have "h \<noteq> u" by auto
    from syncBody_keeps_live [OF assms this, of s] r have "liveBody s1 h = liveBody s h" by simp
    moreover from m Cons.prems(2) have "liveBody s h" by (simp add: list_all_iff)
    ultimately show "liveBody s1 h" by simp
  qed
  moreover from Cons.prems(1) have "distinct us" by simp
  ultimately have "fst (syncBodies lib s1 us) = None" by (rule Cons.IH [rotated])
  with r e show ?case by simp
qed

lemma liveBody_toggle: "liveBody (toggleDebug sab s) h = liveBody s h"
  by (rule liveBody_cong) (simp_all add: toggle_keeps toggle_registry)

text \<open>
  A tick of a ready system that holds the buffer, over handles that are distinct and have
  all they need: the pass over the bodies runs to its end and the buffer is handed back.
  The collision lists and the scene objects of the state after the tick are those the
  pass left.
\<close>

lemma tick_pass:
  assumes "ready s" and "objectMatrices s \<noteq> []" and "matrix4 lib"
    and "distinct (bodyUuids s)" and "list_all (liveBody s) (bodyUuids s)"
  obtains s3 where "syncBodies lib (toggleDebug sab s) (bodyUuids s) = (None, s3)"
    and "collisions (snd (tick lib sab s)) = collisions s3"
    and "object3Ds (snd (tick lib sab s)) = object3Ds s3"
    and "objectMatrices (snd (tick lib sab s)) = []"
proof -
  let ?t = "toggleDebug sab s"
  have ne: "byteLength (objectMatrices ?t) \<noteq> 0"
    using assms(2) by (simp add: toggle_keeps byteLength_def)
  from assms(5) have "list_all (liveBody ?t) (bodyUuids s)"
    by (simp add: list_all_iff liveBody_toggle)
  from syncBodies_completes [OF assms(3,4) this]
  obtain s3 where r: "syncBodies lib ?t (bodyUuids s) = (None, s3)"
    by (cases "syncBodies lib ?t (bodyUuids s)") auto
  let ?s2 = "s3\<lparr>outbox := outbox s3 @ [MSG_TRANSFER_DATA (objectMatrices s3)],
                 objectMatrices := []\<rparr>"
  from r ne assms(1) have t: "tick lib sab s = debugRender ?s2"
    by (simp add: tick_def exchange_def toggle_registry)
  have b: "collisions (snd (tick lib sab s)) = collisions s3"
    unfolding t by (simp add: debugRender_keeps)
  have c: "object3Ds (snd (tick lib sab s)) = object3Ds s3"
    unfolding t by (simp add: debugRender_keeps)
  have d: "objectMatrices (snd (tick lib sab s)) = []"
    unfolding t by (simp add: debugRender_keeps)
  from r b c d show ?thesis by (rule that)
qed

lemma translate_by_length: "length (translate_by a b) = length b"
  by (simp add: translate_by_def)

lemma matrix4_translation_three: "matrix4 translation_three"
  by (simp add: matrix4_def translation_three_def translate_by_length translation4_def
      split: prod.split)

subsection \<open>The collision lists after a tick\<close>

lemma syncBodies_collisions:
  assumes "matrix4 lib"
  shows "fst (syncBodies lib s us) = None \<Longrightarrow>
         collisions (snd (syncBodies lib s us)) h =
           (if h \<in> set us
            then Some (collectCollisions lib (objectMatrices s) (indexToUuid s) (uuidToIndex s h)
                         [18..<BODY_DATA_SIZE] [])
            else collisions s h)"
proof (induction us arbitrary: s)
  case Nil
  show ?case by simp
next
  case (Cons u us)
  obtain e s1 where r: "syncBody lib s u = (e, s1)" by (cases "syncBody lib s u")
  with Cons.prems have e: "e = None" by (cases e) simp_all
  with r have n: "syncBodies lib s (u # us) = syncBodies lib s1 us" by simp
  with Cons.prems have f: "fst (syncBodies lib s1 us) = None" by simp
  have fr: "sync_only s s1" using syncBody_frame [of s lib u] r by simp
  note k = sync_only_fields [OF fr]
  have ts: "tail_same (objectMatrices s) (objectMatrices s1)"
    using syncBody_buffer [OF assms, of s u] r by simp
  have same: "collectCollisions lib (objectMatrices s1) (indexToUuid s1) (uuidToIndex s1 h)
                 [18..<BODY_DATA_SIZE] [] =
              collectCollisions lib (objectMatrices s) (indexToUuid s) (uuidToIndex s h)
                 [18..<BODY_DATA_SIZE] []"
    using collectCollisions_tail_same [OF ts] k by simp
  show ?case
  proof (cases "h \<in> set us")
    case True
    with Cons.IH [OF f] n same show ?thesis by simp
  next
    case False
    note nin = this
    show ?thesis
    proof (cases "h = u")
      case True
      from syncBody_own_collisions [OF assms, of s u] r e
      have "collisions s1 u = Some (collectCollisions lib (objectMatrices s) (indexToUuid s)
              (uuidToIndex s u) [18..<BODY_DATA_SIZE] [])" by simp
      with Cons.IH [OF f, of ] n nin True show ?thesis by simp
    next
      case False
      from syncBody_other_collisions [OF False, of lib s] r have "collisions s1 h = collisions s h"
        by simp
      with Cons.IH [OF f] n nin False show ?thesis by simp
    qed
  qed
qed

text \<open>
  Claim C2, as amended. Take a tick of a ready system that holds the buffer, with live
  handles that are distinct and have their options, scene object, collision list and a
  slot inside the buffer. The pass over the bodies runs to its end (the buffer is handed
  back), and the collision list of every live handle is replaced by a list built from
  the eight collision entries of the handle's slot as they were before the tick: all
  eight are scanned (offsets 18 to 25, the scan does not stop at a \<open>-1\<close>), every entry
  equal to \<open>-1\<close> is skipped, and every other entry contributes, in order, what
  \<open>indexToUuid\<close> holds for it: the handle bound to that slot, or \<open>undefined\<close> when no handle
  is bound to it. In particular, with the entries 5, -1, ..., -1 and slot 5 bound to
  handle 5 the list is the singleton 5.
\<close>

theorem tick_collisions:
  assumes "ready s" and "objectMatrices s \<noteq> []" and "matrix4 lib"
    and "distinct (bodyUuids s)" and "list_all (liveBody s) (bodyUuids s)"
    and "h \<in> set (bodyUuids s)"
  shows "objectMatrices (snd (tick lib sab s)) = [] \<and>
         collisions (snd (tick lib sab s)) h =
         Some (map (\<lambda>c. case c of None \<Rightarrow> None | Some i \<Rightarrow> indexToUuid s i)
                 (filter (\<lambda>c. c \<noteq> Some (- 1))
                    (map (\<lambda>j. intAt lib (objectMatrices s) (offset (uuidToIndex s h) j))
                       [18..<BODY_DATA_SIZE]))) \<and>
         (map (\<lambda>j. intAt lib (objectMatrices s) (offset (uuidToIndex s h) j))
              [18..<BODY_DATA_SIZE] =
            [Some 5, Some (- 1), Some (- 1), Some (- 1), Some (- 1), Some (- 1), Some (- 1),
             Some (- 1)] \<and>
          indexToUuid s 5 = Some 5 \<longrightarrow>
          collisions (snd (tick lib sab s)) h = Some [Some 5])"
proof -
  let ?t = "toggleDebug sab s"
  from tick_pass [OF assms(1-5)] obtain s3
    where r: "syncBodies lib ?t (bodyUuids s) = (None, s3)"
      and c: "collisions (snd (tick lib sab s)) = collisions s3"
      and d: "objectMatrices (snd (tick lib sab s)) = []" by blast
  from r have "fst (syncBodies lib ?t (bodyUuids s)) = None" by simp
  from syncBodies_collisions [OF assms(3) this, of h] r assms(6)
  have "collisions s3 h =
        Some (collectCollisions lib (objectMatrices ?t) (indexToUuid ?t) (uuidToIndex ?t h)
                [18..<BODY_DATA_SIZE] [])" by simp
  with c have g: "collisions (snd (tick lib sab s)) h =
         Some (map (\<lambda>c. case c of None \<Rightarrow> None | Some i \<Rightarrow> indexToUuid s i)
                 (filter (\<lambda>c. c \<noteq> Some (- 1))
                    (map (\<lambda>j. intAt lib (objectMatrices s) (offset (uuidToIndex s h) j))
                       [18..<BODY_DATA_SIZE])))"
    by (simp add: collectCollisions_eq toggle_keeps toggle_registry)
  have p: "map (\<lambda>j. intAt lib (objectMatrices s) (offset (uuidToIndex s h) j))
              [18..<BODY_DATA_SIZE] =
            [Some 5, Some (- 1), Some (- 1), Some (- 1), Some (- 1), Some (- 1), Some (- 1),
             Some (- 1)] \<and>
          indexToUuid s 5 = Some 5 \<longrightarrow>
          collisions (snd (tick lib sab s)) h = Some [Some 5]"
  proof (intro impI, elim conjE)
    assume x: "map (\<lambda>j. intAt lib (objectMatrices s) (offset (uuidToIndex s h) j))
              [18..<BODY_DATA_SIZE] =
            [Some 5, Some (- 1), Some (- 1), Some (- 1), Some (- 1), Some (- 1), Some (- 1),
             Some (- 1)]" and y: "indexToUuid s 5 = Some 5"
    show "collisions (snd (tick lib sab s)) h = Some [Some 5]"
      unfolding g x using y by simp
  qed
  show ?thesis by (intro conjI) (rule d, rule g, rule p)
qed

text \<open>
  The theorem in the session where slot 3, bound to handle 7, has the collision entries
  5, -1, ..., -1 and slot 5 is bound to handle 5: the list of handle 7 is the singleton 5.
\<close>

theorem tick_collisions_witness:
  "(let s = session (Some \<lparr>type = None\<rparr>) [5, - 1, - 1, - 1, - 1, - 1, - 1, - 1] in
    ready s \<and> objectMatrices s \<noteq> [] \<and> matrix4 translation_three \<and>
    distinct (bodyUuids s) \<and> list_all (liveBody s) (bodyUuids s) \<and>
    7 \<in> set (bodyUuids s) \<and> indexToUuid s 5 = Some 5 \<and>
    objectMatrices (snd (tick translation_three True s)) = [] \<and>
    collisions (snd (tick translation_three True s)) 7 = Some [Some 5])"
proof -
  let ?s = "session (Some \<lparr>type = None\<rparr>) [5, - 1, - 1, - 1, - 1, - 1, - 1, - 1]"
  have a: "ready ?s" by code_simp
  have b: "objectMatrices ?s \<noteq> []" by code_simp
  have c: "distinct (bodyUuids ?s)" by code_simp
  have l: "list_all (liveBody ?s) (bodyUuids ?s)" by code_simp
  have d: "7 \<in> set (bodyUuids ?s)" by code_simp
  have i: "indexToUuid ?s 5 = Some 5" by code_simp
  have e: "map (\<lambda>j. intAt translation_three (objectMatrices ?s) (offset (uuidToIndex ?s 7) j))
              [18..<BODY_DATA_SIZE] =
            [Some 5, Some (- 1), Some (- 1), Some (- 1), Some (- 1), Some (- 1), Some (- 1),
             Some (- 1)]" by code_simp
  note k = tick_collisions [OF a b matrix4_translation_three c l d, of True]
  from k have k1: "objectMatrices (snd (tick translation_three True ?s)) = []"
    by (rule conjunct1)
  from k [THEN conjunct2, THEN conjunct2] e i
  have k2: "collisions (snd (tick translation_three True ?s)) 7 = Some [Some 5]"
    by (simp only: simp_thms)
  from k1 k2
  have "objectMatrices (snd (tick translation_three True ?s)) = [] \<and>
        collisions (snd (tick translation_three True ?s)) 7 = Some [Some 5]" ..
  with a b c l d i matrix4_translation_three show ?thesis unfolding Let_def by blast
qed

text \<open>
  Claim C2 as stated fails in the same session with the collision entries -1, 5, 9, -1,
  ..., -1 in slot 3: the scan goes past the first \<open>-1\<close> and reports handle 5, and the
  entry 9, a slot that no handle is bound to, is appended as \<open>undefined\<close>, not skipped.
\<close>

theorem tick_collisions_counterexample:
  "(let s = session (Some \<lparr>type = None\<rparr>) [- 1, 5, 9, - 1, - 1, - 1, - 1, - 1];
        s' = snd (tick translation_three True s) in
    fst (tick translation_three True s) = None \<and>
    indexToUuid s 5 = Some 5 \<and> indexToUuid s 9 = None \<and>
    collisions s' 7 = Some [Some 5, None])"
  by code_simp

subsection \<open>The scene objects after a tick\<close>











end
